theory Spec2Isabelle
  imports Main "HOL-Library.AList"
begin

section \<open>JavaScript values\<close>

text \<open>
  The data that flows through the plugin: job descriptors and option values are opaque
  JavaScript values. A plain object is given by its own enumerable properties in
  enumeration order; a function is opaque and named by a number. Numbers are the integers.
\<close>

datatype jsval =
    JUndefined
  | JNull
  | JBool bool
  | JNum int
  | JStr string
  | JArr "jsval list"
  | JFun nat
  | JObj "(string \<times> jsval) list"

text \<open>The truthiness test of \<^verbatim>\<open>if (v)\<close>, \<^verbatim>\<open>v && e\<close> and \<^verbatim>\<open>!v\<close>.\<close>

fun truthy :: "jsval \<Rightarrow> bool" where
  "truthy JUndefined = False"
| "truthy JNull = False"
| "truthy (JBool b) = b"
| "truthy (JNum n) = (n \<noteq> 0)"
| "truthy (JStr s) = (s \<noteq> [])"
| "truthy (JArr xs) = True"
| "truthy (JFun f) = True"
| "truthy (JObj kvs) = True"

text \<open>
  An options bag is an object: its own properties in enumeration order, keys distinct.
\<close>

type_synonym options = "(string \<times> jsval) list"

text \<open>Reading a property: \<^verbatim>\<open>obj[k]\<close> is \<^verbatim>\<open>undefined\<close> when the key is absent.\<close>

definition field :: "options \<Rightarrow> string \<Rightarrow> jsval" where
  "field obj k = (case map_of obj k of None \<Rightarrow> JUndefined | Some v \<Rightarrow> v)"

text \<open>
  A destructuring pattern with a default, \<^verbatim>\<open>const { k = d } = obj\<close>: the default
  replaces \<^verbatim>\<open>undefined\<close>, whether the key is absent or holds \<^verbatim>\<open>undefined\<close>.
\<close>

definition field_or :: "jsval \<Rightarrow> options \<Rightarrow> string \<Rightarrow> jsval" where
  "field_or d obj k = (case field obj k of JUndefined \<Rightarrow> d | v \<Rightarrow> v)"

text \<open>
  \<^verbatim>\<open>Object.assign(target, a, b)\<close>: the properties of each source are written to the
  target from left to right; a key already present keeps its position and takes the new
  value, a new key goes to the end.
\<close>

definition Object_assign :: "options \<Rightarrow> options \<Rightarrow> options \<Rightarrow> options" where
  "Object_assign target a b =
     fold (\<lambda>(k, v). AList.update k v) b (fold (\<lambda>(k, v). AList.update k v) a target)"

section \<open>Command batches\<close>

definition COMMAND_LIST :: "string list" where
  "COMMAND_LIST = [''copy'', ''move'', ''del'', ''zip'', ''unzip'', ''rename'']"

text \<open>
  The value stored under a command name in a batch: \<^verbatim>\<open>undefined\<close>, \<^verbatim>\<open>null\<close>, or an
  object whose \<^verbatim>\<open>items\<close> (an array of jobs) and \<^verbatim>\<open>options\<close> (an object) may each be
  absent. The batch is typed as its documentation gives it: an \<^verbatim>\<open>items\<close> that is no
  array and an \<^verbatim>\<open>options\<close> that is no object are not values of this type. Properties
  are the own properties of object literals; nothing is inherited or shadowed.
\<close>

datatype entry =
    EUndefined
  | ENull
  | EObject (items_of: "jsval list option") (options_of: "options option")

text \<open>A batch: the own properties of the \<^verbatim>\<open>commands\<close> object in \<^verbatim>\<open>for ... in\<close> order.\<close>

type_synonym commands = "(string \<times> entry) list"

text \<open>\<^verbatim>\<open>const { items = [] } = e\<close> and \<^verbatim>\<open>const { options = {} } = e\<close> on an object.\<close>

definition items_or_default :: "jsval list option \<Rightarrow> jsval list" where
  "items_or_default i = (case i of None \<Rightarrow> [] | Some xs \<Rightarrow> xs)"

definition options_or_default :: "options option \<Rightarrow> options" where
  "options_or_default opt = (case opt of None \<Rightarrow> [] | Some kvs \<Rightarrow> kvs)"

section \<open>The host: executor, parallel dispatcher, serializer, cache\<close>

text \<open>
  What the orchestrator does to the outside is recorded as a trace of calls: one event for
  each call of an executor operation \<^verbatim>\<open>commander[command](item, opts)\<close>, each call of
  \<^verbatim>\<open>masterCluster({jobs, cpu, type}, opts)\<close> and each \<^verbatim>\<open>progress.setSpeed(n)\<close>.
\<close>

datatype event =
    Commander string jsval options
  | MasterCluster "jsval list" jsval string options
  | SetSpeed jsval

text \<open>
  Modelled from the spec: \<^verbatim>\<open>cacheSingle()\<close> of \<^verbatim>\<open>./utils\<close> is not among the sources; it
  returns the process-wide store that maps a command name to the fingerprint of its item
  list. The store is the field \<open>cache\<close> of the state. The field \<open>world\<close> is whatever the
  file operations act on.
\<close>

record 'w state =
  cache :: "string \<rightharpoonup> string"
  trace :: "event list"
  world :: 'w

text \<open>
  The modules \<^verbatim>\<open>./commander\<close> and \<^verbatim>\<open>./masterCluster\<close> and the builtin
  \<^verbatim>\<open>JSON.stringify\<close> are parameters. An executor operation either resolves (\<open>None\<close>) or
  rejects with a reason; the dispatcher rejects with a reason (\<open>Inl\<close>) or resolves with
  the number of completed jobs (\<open>Inr\<close>). Both may change the world either way.
\<close>

record 'w host =
  commander :: "string \<Rightarrow> jsval \<Rightarrow> options \<Rightarrow> 'w \<Rightarrow> jsval option \<times> 'w"
  masterCluster :: "jsval list \<Rightarrow> jsval \<Rightarrow> string \<Rightarrow> options \<Rightarrow> 'w \<Rightarrow> (jsval + jsval) \<times> 'w"
  stringify :: "jsval list \<Rightarrow> string"

datatype error = TypeError | Rejected jsval

text \<open>
  An asynchronous function either resolves or rejects; either way the state reached is
  kept, so that what happened before a failure can be inspected.
\<close>

datatype 'w run = Done "'w state" | Failed error "'w state"

definition log :: "event \<Rightarrow> 'w \<Rightarrow> 'w state \<Rightarrow> 'w state" where
  "log e w s = s\<lparr>trace := trace s @ [e], world := w\<rparr>"

section \<open>The orchestrator with the cache\<close>

text \<open>
  \<^verbatim>\<open>for (const item of items) { await commander[command](item, opts); }\<close>
\<close>

fun run_items :: "'w host \<Rightarrow> string \<Rightarrow> options \<Rightarrow> jsval list \<Rightarrow> 'w state \<Rightarrow> 'w run" where
  "run_items h command opts [] s = Done s"
| "run_items h command opts (item # rest) s =
     (case commander h command item opts (world s) of
        (Some reason, w) \<Rightarrow> Failed (Rejected reason) (log (Commander command item opts) w s)
      | (None, w) \<Rightarrow> run_items h command opts rest (log (Commander command item opts) w s))"

text \<open>\<^verbatim>\<open>await masterCluster({ jobs: items, cpu: parallel, type: command }, opts)\<close>\<close>

definition run_cluster ::
  "'w host \<Rightarrow> string \<Rightarrow> options \<Rightarrow> jsval list \<Rightarrow> jsval \<Rightarrow> 'w state \<Rightarrow> 'w run" where
  "run_cluster h command opts items parallel s =
     (case masterCluster h items parallel command opts (world s) of
        (Inl reason, w) \<Rightarrow>
          Failed (Rejected reason) (log (MasterCluster items parallel command opts) w s)
      | (Inr completedNum, w) \<Rightarrow>
          Done (log (MasterCluster items parallel command opts) w s))"

text \<open>\<^verbatim>\<open>commands[command] || {}\<close>: a missing entry reads as the empty object.\<close>

fun or_empty :: "entry \<Rightarrow> entry" where
  "or_empty EUndefined = EObject None None"
| "or_empty ENull = EObject None None"
| "or_empty (EObject i opt) = EObject i opt"

text \<open>The body of the loop of \<^verbatim>\<open>handleCommand\<close> for one recognized command.\<close>

definition handle_entry ::
  "'w host \<Rightarrow> options \<Rightarrow> string \<Rightarrow> entry \<Rightarrow> 'w state \<Rightarrow> 'w run" where
  "handle_entry h globalOptions command e s =
     (let items = items_or_default (items_of (or_empty e));
          options = options_or_default (options_of (or_empty e));
          opts = Object_assign [] globalOptions options;
          parallel = field globalOptions ''parallel'';
          optCache = field_or (JBool True) opts ''cache'';
          content = stringify h items
      in if (truthy optCache \<and> cache s command = Some content) \<or> length items = 0
         then Done s
         else
           (case (if truthy parallel then run_cluster h command opts items parallel s
                  else run_items h command opts items s) of
              Failed err s' \<Rightarrow> Failed err s'
            | Done s' \<Rightarrow>
                Done (if truthy optCache then s'\<lparr>cache := (cache s')(command \<mapsto> content)\<rparr>
                      else s')))"

text \<open>
  \<^verbatim>\<open>obj.hasOwnProperty(key)\<close> on an object with the own keys \<open>keys\<close>. The method
  is the one of \<^verbatim>\<open>Object.prototype\<close> unless the object has an own property named
  \<^verbatim>\<open>hasOwnProperty\<close>; that property then holds an entry or a batch, not a function,
  and the call raises a \<^verbatim>\<open>TypeError\<close>.
\<close>

definition hasOwnProperty :: "string list \<Rightarrow> string \<Rightarrow> error + bool" where
  "hasOwnProperty keys key =
     (if ''hasOwnProperty'' \<in> set keys then Inl TypeError else Inr (key \<in> set keys))"

text \<open>
  \<^verbatim>\<open>for (const command in commands)\<close> with its test
  \<^verbatim>\<open>commands.hasOwnProperty(command) && COMMAND_LIST.includes(command)\<close>: the third
  argument is the whole batch, the fourth the properties still to visit, in order. A key
  that fails the test is passed over; a rejection ends the loop.
\<close>

fun handle_commands ::
  "'w host \<Rightarrow> options \<Rightarrow> commands \<Rightarrow> commands \<Rightarrow> 'w state \<Rightarrow> 'w run" where
  "handle_commands h globalOptions commands [] s = Done s"
| "handle_commands h globalOptions commands ((command, e) # rest) s =
     (case hasOwnProperty (map fst commands) command of
        Inl err \<Rightarrow> Failed err s
      | Inr own \<Rightarrow>
          if own \<and> command \<in> set COMMAND_LIST
          then (case handle_entry h globalOptions command e s of
                  Failed err s' \<Rightarrow> Failed err s'
                | Done s' \<Rightarrow> handle_commands h globalOptions commands rest s')
          else handle_commands h globalOptions commands rest s)"

text \<open>
  \<^verbatim>\<open>async function handleCommand(commands = {}, globalOptions = {})\<close>: an argument
  left out is \<open>None\<close>.
\<close>

definition handleCommand ::
  "'w host \<Rightarrow> commands option \<Rightarrow> options option \<Rightarrow> 'w state \<Rightarrow> 'w run" where
  "handleCommand h commands globalOptions s =
     handle_commands h (case globalOptions of None \<Rightarrow> [] | Some g \<Rightarrow> g)
       (case commands of None \<Rightarrow> [] | Some c \<Rightarrow> c)
       (case commands of None \<Rightarrow> [] | Some c \<Rightarrow> c) s"

section \<open>The webpack plugin\<close>

definition NAMESPACE_REGISTER_NAME :: string where
  "NAMESPACE_REGISTER_NAME = ''REGISTER_''"

definition PROGRESS_TASK_NAME :: string where
  "PROGRESS_TASK_NAME = ''file manager''"

text \<open>
  An element of the array that \<^verbatim>\<open>translateHooks\<close> returns. Of a hook given by the user
  under \<^verbatim>\<open>customHooks\<close> each of the four properties may be absent (\<open>None\<close>).
\<close>

record hook_item =
  hookType :: "string option"
  hookName :: "string option"
  registerName :: "string option"
  commands :: "commands option"

text \<open>
  The object the plugin is configured with: \<^verbatim>\<open>options\<close> (the global options),
  \<^verbatim>\<open>events\<close> (event name to batch; a falsy value is \<open>None\<close>) and \<^verbatim>\<open>customHooks\<close>.
\<close>

record plugin_options =
  global_options :: "options option"
  events :: "(string \<times> commands option) list option"
  customHooks :: "hook_item list option"

definition empty_options :: plugin_options where
  "empty_options = \<lparr>global_options = None, events = None, customHooks = None\<rparr>"

text \<open>What \<^verbatim>\<open>new webpackPlugin(opts)\<close> may be given.\<close>

datatype ctor_arg =
    ArgUndefined
  | ArgNull
  | ArgBool bool
  | ArgNum int
  | ArgStr string
  | ArgArr "jsval list"
  | ArgFun nat
  | ArgObj plugin_options

text \<open>\<^verbatim>\<open>Object.prototype.toString.call(opts)\<close>\<close>

fun toString_call :: "ctor_arg \<Rightarrow> string" where
  "toString_call ArgUndefined = ''[object Undefined]''"
| "toString_call ArgNull = ''[object Null]''"
| "toString_call (ArgBool b) = ''[object Boolean]''"
| "toString_call (ArgNum n) = ''[object Number]''"
| "toString_call (ArgStr s) = ''[object String]''"
| "toString_call (ArgArr xs) = ''[object Array]''"
| "toString_call (ArgFun f) = ''[object Function]''"
| "toString_call (ArgObj opts) = ''[object Object]''"

text \<open>The bar that \<^verbatim>\<open>progress({ taskName, start, total })\<close> of \<^verbatim>\<open>./utils\<close> creates.\<close>

record progress_bar =
  taskName :: string
  start :: nat
  total :: nat

text \<open>
  The instance: \<^verbatim>\<open>this.options\<close> and \<^verbatim>\<open>this.progress\<close>, which is \<^verbatim>\<open>undefined\<close> until
  \<^verbatim>\<open>apply\<close> creates it. \<^verbatim>\<open>this.hookTypesMap\<close> is the same for every instance: its
  keys are \<open>hookTypes\<close>.
\<close>

record plugin =
  this_options :: plugin_options
  this_progress :: "progress_bar option"

definition hookTypes :: "string list" where
  "hookTypes = [''tap'', ''tapPromise'', ''tapAsync'']"

definition "constructor" :: "ctor_arg \<Rightarrow> plugin" where
  "constructor opts =
     \<lparr>this_options =
        (if toString_call opts = ''[object Object]''
         then (case opts of ArgObj o' \<Rightarrow> o' | _ \<Rightarrow> empty_options)
         else empty_options),
      this_progress = None\<rparr>"

text \<open>\<^verbatim>\<open>const { options: globalOptions = {} } = this.options\<close>\<close>

definition globalOptions_of :: "plugin \<Rightarrow> options" where
  "globalOptions_of this = options_or_default (global_options (this_options this))"

text \<open>\<^verbatim>\<open>this.progress.setSpeed(n)\<close>: a \<^verbatim>\<open>TypeError\<close> when there is no bar.\<close>

definition setSpeed :: "plugin \<Rightarrow> jsval \<Rightarrow> 'w state \<Rightarrow> 'w run" where
  "setSpeed this n s =
     (case this_progress this of
        None \<Rightarrow> Failed TypeError s
      | Some bar \<Rightarrow> Done (s\<lparr>trace := trace s @ [SetSpeed n]\<rparr>))"

text \<open>
  \<^verbatim>\<open>for (const item of items) { await commander[command](item, opts);
  progress && this.progress.setSpeed(1); }\<close>
\<close>

fun plugin_run_items ::
  "'w host \<Rightarrow> plugin \<Rightarrow> jsval \<Rightarrow> string \<Rightarrow> options \<Rightarrow> jsval list \<Rightarrow> 'w state \<Rightarrow> 'w run" where
  "plugin_run_items h this progress command opts [] s = Done s"
| "plugin_run_items h this progress command opts (item # rest) s =
     (case commander h command item opts (world s) of
        (Some reason, w) \<Rightarrow> Failed (Rejected reason) (log (Commander command item opts) w s)
      | (None, w) \<Rightarrow>
          (case (if truthy progress
                 then setSpeed this (JNum 1) (log (Commander command item opts) w s)
                 else Done (log (Commander command item opts) w s)) of
             Failed err s' \<Rightarrow> Failed err s'
           | Done s' \<Rightarrow> plugin_run_items h this progress command opts rest s'))"

text \<open>
  \<^verbatim>\<open>const completedNum = await masterCluster({ jobs: items, cpu: parallel, type: command }, opts);
  progress && this.progress.setSpeed(completedNum);\<close>
\<close>

definition plugin_run_cluster ::
  "'w host \<Rightarrow> plugin \<Rightarrow> jsval \<Rightarrow> string \<Rightarrow> options \<Rightarrow> jsval list \<Rightarrow> jsval \<Rightarrow> 'w state \<Rightarrow> 'w run"
  where
  "plugin_run_cluster h this progress command opts items parallel s =
     (case masterCluster h items parallel command opts (world s) of
        (Inl reason, w) \<Rightarrow>
          Failed (Rejected reason) (log (MasterCluster items parallel command opts) w s)
      | (Inr completedNum, w) \<Rightarrow>
          (if truthy progress
           then setSpeed this completedNum (log (MasterCluster items parallel command opts) w s)
           else Done (log (MasterCluster items parallel command opts) w s)))"

text \<open>
  The body of the loop of the method \<^verbatim>\<open>handleCommand\<close> for one recognized command.
  Destructuring \<^verbatim>\<open>commands[command]\<close> raises a \<^verbatim>\<open>TypeError\<close> on \<^verbatim>\<open>undefined\<close> and
  \<^verbatim>\<open>null\<close>.
\<close>

definition plugin_handle_entry ::
  "'w host \<Rightarrow> plugin \<Rightarrow> options \<Rightarrow> string \<Rightarrow> entry \<Rightarrow> 'w state \<Rightarrow> 'w run" where
  "plugin_handle_entry h this globalOptions command e s =
     (case e of
        EUndefined \<Rightarrow> Failed TypeError s
      | ENull \<Rightarrow> Failed TypeError s
      | EObject i opt \<Rightarrow>
          (let items = items_or_default i;
               options = options_or_default opt;
               opts = Object_assign [] globalOptions options;
               progress = field globalOptions ''progress'';
               parallel = field globalOptions ''parallel''
           in if truthy parallel
              then plugin_run_cluster h this progress command opts items parallel s
              else plugin_run_items h this progress command opts items s))"

fun plugin_handle_commands ::
  "'w host \<Rightarrow> plugin \<Rightarrow> options \<Rightarrow> commands \<Rightarrow> commands \<Rightarrow> 'w state \<Rightarrow> 'w run" where
  "plugin_handle_commands h this globalOptions batch [] s = Done s"
| "plugin_handle_commands h this globalOptions batch ((command, e) # rest) s =
     (case hasOwnProperty (map fst batch) command of
        Inl err \<Rightarrow> Failed err s
      | Inr own \<Rightarrow>
          if own \<and> command \<in> set COMMAND_LIST
          then (case plugin_handle_entry h this globalOptions command e s of
                  Failed err s' \<Rightarrow> Failed err s'
                | Done s' \<Rightarrow> plugin_handle_commands h this globalOptions batch rest s')
          else plugin_handle_commands h this globalOptions batch rest s)"

text \<open>
  The method \<^verbatim>\<open>async handleCommand(commands)\<close>; \<^verbatim>\<open>for ... in\<close> over \<^verbatim>\<open>undefined\<close>
  runs no iteration.
\<close>

definition plugin_handleCommand ::
  "'w host \<Rightarrow> plugin \<Rightarrow> commands option \<Rightarrow> 'w state \<Rightarrow> 'w run" where
  "plugin_handleCommand h this batch s =
     plugin_handle_commands h this (globalOptions_of this)
       (case batch of None \<Rightarrow> [] | Some c \<Rightarrow> c)
       (case batch of None \<Rightarrow> [] | Some c \<Rightarrow> c) s"

subsection \<open>Hooks\<close>

text \<open>\<^verbatim>\<open>BUILTIN_EVENTS_MAP\<close>: event name to hook type, hook name and register name.\<close>

definition BUILTIN_EVENTS_MAP :: "(string \<times> string \<times> string \<times> string) list" where
  "BUILTIN_EVENTS_MAP =
     [(''start'', ''tapAsync'', ''beforeRun'', NAMESPACE_REGISTER_NAME @ ''beforeRun''),
      (''end'', ''tapAsync'', ''afterEmit'', NAMESPACE_REGISTER_NAME @ ''afterEmit'')]"

definition BUILTIN_EVENT_NAMES :: "string list" where
  "BUILTIN_EVENT_NAMES = map fst BUILTIN_EVENTS_MAP"

text \<open>
  The callback of \<^verbatim>\<open>customHooks.map\<close>: a hook whose \<^verbatim>\<open>registerName\<close> is falsy
  (absent or the empty string) gets \<^verbatim>\<open>NAMESPACE_REGISTER_NAME + hookName\<close>, where an
  absent \<^verbatim>\<open>hookName\<close> concatenates as \<^verbatim>\<open>undefined\<close>.
\<close>

definition name_hook :: "hook_item \<Rightarrow> hook_item" where
  "name_hook hook =
     (if (case registerName hook of None \<Rightarrow> True | Some r \<Rightarrow> r = [])
      then hook\<lparr>registerName :=
             Some (NAMESPACE_REGISTER_NAME @
                   (case hookName hook of None \<Rightarrow> ''undefined'' | Some n \<Rightarrow> n))\<rparr>
      else hook)"

text \<open>
  The loop over \<^verbatim>\<open>events\<close> with its test
  \<^verbatim>\<open>events.hasOwnProperty(event) && BUILTIN_EVENT_NAMES.includes(event)\<close>, pushing to
  \<^verbatim>\<open>result\<close>: the first argument is the whole object, the second the properties still
  to visit.
\<close>

fun translate_events ::
  "(string \<times> commands option) list \<Rightarrow> (string \<times> commands option) list \<Rightarrow> hook_item list \<Rightarrow>
   error + hook_item list" where
  "translate_events evs [] result = Inr result"
| "translate_events evs ((event, cmds) # rest) result =
     (case hasOwnProperty (map fst evs) event of
        Inl err \<Rightarrow> Inl err
      | Inr own \<Rightarrow>
          if own \<and> event \<in> set BUILTIN_EVENT_NAMES
          then (case cmds of
                  None \<Rightarrow> translate_events evs rest result
                | Some c \<Rightarrow>
                    (case map_of BUILTIN_EVENTS_MAP event of
                       None \<Rightarrow> translate_events evs rest result
                     | Some (t, n, r) \<Rightarrow>
                         translate_events evs rest
                           (result @ [\<lparr>hookType = Some t, hookName = Some n,
                                       registerName = Some r, commands = Some c\<rparr>])))
          else translate_events evs rest result)"

text \<open>
  \<^verbatim>\<open>translateHooks()\<close> returns the hook items. The hooks of \<^verbatim>\<open>customHooks\<close> are named
  in place, so the instance changes too: the first component is the instance afterwards.
\<close>

definition translateHooks :: "plugin \<Rightarrow> error + plugin \<times> hook_item list" where
  "translateHooks this =
     (let evs = (case events (this_options this) of None \<Rightarrow> [] | Some e \<Rightarrow> e);
          hooks = (case customHooks (this_options this) of None \<Rightarrow> [] | Some c \<Rightarrow> c)
      in if length hooks > 0
         then Inr (this\<lparr>this_options :=
                          (this_options this)\<lparr>customHooks := Some (map name_hook hooks)\<rparr>\<rparr>,
                   map name_hook hooks)
         else (case translate_events evs evs [] of
                 Inl err \<Rightarrow> Inl err
               | Inr result \<Rightarrow> Inr (this, result)))"

text \<open>
  The names every object literal inherits from \<^verbatim>\<open>Object.prototype\<close>; under each of
  them a property read finds a builtin, which is truthy.
\<close>

definition OBJECT_PROTOTYPE :: "string list" where
  "OBJECT_PROTOTYPE =
     [''constructor'', ''hasOwnProperty'', ''isPrototypeOf'', ''propertyIsEnumerable'',
      ''toLocaleString'', ''toString'', ''valueOf'', ''__proto__'', ''__defineGetter__'',
      ''__defineSetter__'', ''__lookupGetter__'', ''__lookupSetter__'']"

text \<open>
  \<^verbatim>\<open>this.hookTypesMap[hookType]\<close> is truthy: the hook type is one of the three keys of
  the map or a name the map inherits. An absent hook type reads the key
  \<^verbatim>\<open>undefined\<close>, which is neither.
\<close>

definition supported :: "string option \<Rightarrow> bool" where
  "supported t =
     (case t of None \<Rightarrow> False | Some n \<Rightarrow> n \<in> set hookTypes \<or> n \<in> set OBJECT_PROTOTYPE)"

text \<open>
  The inner loop of \<^verbatim>\<open>countTotalTasks\<close> over the commands of one hook item, adding to
  \<^verbatim>\<open>result\<close>: the first argument is the whole batch, the second the properties still
  to visit. It has no \<^verbatim>\<open>|| {}\<close>: destructuring a missing entry raises.
\<close>

fun count_commands :: "commands \<Rightarrow> commands \<Rightarrow> nat \<Rightarrow> error + nat" where
  "count_commands batch [] result = Inr result"
| "count_commands batch ((command, e) # rest) result =
     (case hasOwnProperty (map fst batch) command of
        Inl err \<Rightarrow> Inl err
      | Inr own \<Rightarrow>
          if own \<and> command \<in> set COMMAND_LIST
          then (case e of
                  EUndefined \<Rightarrow> Inl TypeError
                | ENull \<Rightarrow> Inl TypeError
                | EObject i opt \<Rightarrow>
                    count_commands batch rest (result + length (items_or_default i)))
          else count_commands batch rest result)"

fun count_hooks :: "hook_item list \<Rightarrow> nat \<Rightarrow> error + nat" where
  "count_hooks [] result = Inr result"
| "count_hooks (hookItem # rest) result =
     (if \<not> supported (hookType hookItem) then count_hooks rest result
      else (case count_commands (case commands hookItem of None \<Rightarrow> [] | Some c \<Rightarrow> c)
                   (case commands hookItem of None \<Rightarrow> [] | Some c \<Rightarrow> c) result of
              Inl err \<Rightarrow> Inl err
            | Inr result' \<Rightarrow> count_hooks rest result'))"

definition countTotalTasks :: "hook_item list \<Rightarrow> error + nat" where
  "countTotalTasks hookItems = count_hooks hookItems 0"

text \<open>
  The loop of \<^verbatim>\<open>apply\<close>, with the same test of the hook type. Whether the statement
  of the \<^verbatim>\<open>try\<close> block,
  \<^verbatim>\<open>compiler.hooks[hookName][hookType](registerName, this.hookTypesMap[hookType](commands))\<close>,
  returns for a hook item is a parameter: it depends on the compiler and, for an inherited
  hook type, on the builtin found under that name. When it throws, the error is caught
  and logged.
\<close>

datatype apply_event =
    Registered "string option" "string option" "string option" "commands option"
  | LoggerError

fun register_hooks :: "(hook_item \<Rightarrow> bool) \<Rightarrow> hook_item list \<Rightarrow> apply_event list" where
  "register_hooks compiler [] = []"
| "register_hooks compiler (hookItem # rest) =
     (if \<not> supported (hookType hookItem) then register_hooks compiler rest
      else (if compiler hookItem
            then Registered (hookName hookItem) (hookType hookItem) (registerName hookItem)
                   (commands hookItem)
            else LoggerError) # register_hooks compiler rest)"

text \<open>\<^verbatim>\<open>apply(compiler)\<close>: the instance afterwards and the registrations made.\<close>

definition plugin_apply ::
  "plugin \<Rightarrow> (hook_item \<Rightarrow> bool) \<Rightarrow> error + plugin \<times> apply_event list" where
  "plugin_apply this compiler =
     (let globalOptions = globalOptions_of this
      in case translateHooks this of
           Inl err \<Rightarrow> Inl err
         | Inr (this', hookItems) \<Rightarrow>
             (case countTotalTasks hookItems of
                Inl err \<Rightarrow> Inl err
              | Inr totalTasks \<Rightarrow>
                  Inr (if truthy (field globalOptions ''progress'')
                       then this'\<lparr>this_progress :=
                              Some \<lparr>taskName = PROGRESS_TASK_NAME, start = 0,
                                    total = totalTasks\<rparr>\<rparr>
                       else this',
                       register_hooks compiler hookItems)))"

section \<open>A serializer for the examples\<close>

text \<open>
  \<^verbatim>\<open>JSON.stringify\<close> on the values above, used where a concrete host is needed. The
  theorems hold for every serializer.
\<close>

definition hex_digits :: string where
  "hex_digits = ''0123456789abcdef''"

fun decimal :: "nat \<Rightarrow> string" where
  "decimal n = (if n < 10 then [hex_digits ! n] else decimal (n div 10) @ [hex_digits ! (n mod 10)])"

definition quote_char :: "char \<Rightarrow> string" where
  "quote_char c =
     (if c = CHR 0x22 then [CHR 0x5C, CHR 0x22]
      else if c = CHR 0x5C then [CHR 0x5C, CHR 0x5C]
      else if c = CHR 0x08 then [CHR 0x5C, CHR ''b'']
      else if c = CHR 0x09 then [CHR 0x5C, CHR ''t'']
      else if c = CHR 0x0A then [CHR 0x5C, CHR ''n'']
      else if c = CHR 0x0C then [CHR 0x5C, CHR ''f'']
      else if c = CHR 0x0D then [CHR 0x5C, CHR ''r'']
      else if (of_char c :: nat) < 32
      then [CHR 0x5C, CHR ''u'', CHR ''0'', CHR ''0'',
            hex_digits ! (of_char c div 16), hex_digits ! (of_char c mod 16)]
      else [c])"

definition quote :: "string \<Rightarrow> string" where
  "quote s = [CHR 0x22] @ concat (map quote_char s) @ [CHR 0x22]"

fun commas :: "string list \<Rightarrow> string" where
  "commas [] = []"
| "commas [x] = x"
| "commas (x # y # ys) = x @ '','' @ commas (y # ys)"

fun json :: "jsval \<Rightarrow> string option" where
  "json JUndefined = None"
| "json JNull = Some ''null''"
| "json (JBool b) = Some (if b then ''true'' else ''false'')"
| "json (JNum n) = Some (if n < 0 then ''-'' @ decimal (nat (- n)) else decimal (nat n))"
| "json (JStr s) = Some (quote s)"
| "json (JArr xs) =
     Some (''['' @ commas (map (\<lambda>x. case json x of None \<Rightarrow> ''null'' | Some t \<Rightarrow> t) xs) @ '']'')"
| "json (JFun f) = None"
| "json (JObj kvs) =
     Some (''{'' @ commas (concat (map (\<lambda>kv. case json (snd kv) of None \<Rightarrow> []
                                             | Some t \<Rightarrow> [quote (fst kv) @ '':'' @ t]) kvs)) @ ''}'')"

definition JSON_stringify :: "jsval list \<Rightarrow> string" where
  "JSON_stringify items = (case json (JArr items) of None \<Rightarrow> [] | Some t \<Rightarrow> t)"

section \<open>Vocabulary of the statements\<close>

text \<open>The state a run ends in, whether it resolved or rejected.\<close>

definition state_of :: "'w run \<Rightarrow> 'w state" where
  "state_of r = (case r of Done s \<Rightarrow> s | Failed err s \<Rightarrow> s)"

text \<open>
  What \<^verbatim>\<open>handleCommand\<close> computes from an entry before it decides anything: the item
  list, the merged options, the cache flag of the merged options with its default, and
  the serialization of the item list.
\<close>

fun entry_items :: "entry \<Rightarrow> jsval list" where
  "entry_items (EObject (Some xs) opt) = xs"
| "entry_items e = []"

fun entry_options :: "entry \<Rightarrow> options" where
  "entry_options (EObject its (Some kvs)) = kvs"
| "entry_options e = []"

definition merged :: "options \<Rightarrow> entry \<Rightarrow> options" where
  "merged g e = Object_assign [] g (entry_options e)"

definition cache_enabled :: "options \<Rightarrow> entry \<Rightarrow> bool" where
  "cache_enabled g e = truthy (field_or (JBool True) (merged g e) ''cache'')"

definition fingerprint :: "'w host \<Rightarrow> entry \<Rightarrow> string" where
  "fingerprint h e = stringify h (entry_items e)"

text \<open>
  The skip condition in the words of the specification: the cache is enabled and the
  fingerprint equals the stored one, or the item list is empty.
\<close>

definition skip_condition :: "'w host \<Rightarrow> options \<Rightarrow> string \<Rightarrow> entry \<Rightarrow> 'w state \<Rightarrow> bool" where
  "skip_condition h g command e s =
     ((cache_enabled g e \<and> cache s command = Some (fingerprint h e)) \<or> entry_items e = [])"

text \<open>
  The same condition with the merge in the words of the specification: the value of a key
  is the one among the options of the command if it is there, that of the global options
  otherwise; the cache flag is that value under \<^verbatim>\<open>cache\<close>, true when undefined.
\<close>

definition override :: "options \<Rightarrow> options \<Rightarrow> string \<Rightarrow> jsval" where
  "override g opt k = (case map_of opt k of Some v \<Rightarrow> v | None \<Rightarrow> field g k)"

definition cache_flag :: "options \<Rightarrow> entry \<Rightarrow> jsval" where
  "cache_flag g e =
     (case override g (entry_options e) ''cache'' of JUndefined \<Rightarrow> JBool True | v \<Rightarrow> v)"

definition skips :: "'w host \<Rightarrow> options \<Rightarrow> string \<Rightarrow> entry \<Rightarrow> 'w state \<Rightarrow> bool" where
  "skips h g command e s =
     ((truthy (cache_flag g e) \<and> cache s command = Some (stringify h (entry_items e)))
      \<or> entry_items e = [])"

text \<open>
  The executor calls of one command on a list of items: the events, whether each call
  resolves when the calls are made one after the other, each on the world the previous one
  left, and the world after them.
\<close>

definition calls :: "string \<Rightarrow> options \<Rightarrow> jsval list \<Rightarrow> event list" where
  "calls command opts xs = map (\<lambda>i. Commander command i opts) xs"

fun resolves_all :: "'w host \<Rightarrow> string \<Rightarrow> options \<Rightarrow> jsval list \<Rightarrow> 'w \<Rightarrow> bool" where
  "resolves_all h command opts [] w = True"
| "resolves_all h command opts (x # xs) w =
     (fst (commander h command x opts w) = None \<and>
      resolves_all h command opts xs (snd (commander h command x opts w)))"

definition world_after :: "'w host \<Rightarrow> string \<Rightarrow> options \<Rightarrow> jsval list \<Rightarrow> 'w \<Rightarrow> 'w" where
  "world_after h command opts xs w = fold (\<lambda>i w'. snd (commander h command i opts w')) xs w"

text \<open>The executor calls, the dispatcher calls and the progress calls of a trace, in order.\<close>

fun is_Commander :: "event \<Rightarrow> bool" where
  "is_Commander (Commander c i opts) = True"
| "is_Commander ev = False"

fun is_MasterCluster :: "event \<Rightarrow> bool" where
  "is_MasterCluster (MasterCluster jobs cpu t opts) = True"
| "is_MasterCluster ev = False"

definition commander_calls :: "event list \<Rightarrow> event list" where
  "commander_calls evs = filter is_Commander evs"

definition cluster_calls :: "event list \<Rightarrow> event list" where
  "cluster_calls evs = filter is_MasterCluster evs"

fun is_SetSpeed :: "event \<Rightarrow> bool" where
  "is_SetSpeed (SetSpeed n) = True"
| "is_SetSpeed ev = False"

definition progress_calls :: "event list \<Rightarrow> event list" where
  "progress_calls evs = filter is_SetSpeed evs"

text \<open>
  The entries that \<^verbatim>\<open>countTotalTasks\<close> visits: those with a recognized command name,
  under the hook items whose hook type is supported, in order; and the number of items
  they hold.
\<close>

fun is_object :: "entry \<Rightarrow> bool" where
  "is_object (EObject its opt) = True"
| "is_object e = False"

definition hook_commands :: "hook_item \<Rightarrow> commands" where
  "hook_commands hookItem = (case commands hookItem of None \<Rightarrow> [] | Some c \<Rightarrow> c)"

definition recognized :: "commands \<Rightarrow> commands" where
  "recognized cmds = filter (\<lambda>(command, e). command \<in> set COMMAND_LIST) cmds"

text \<open>No batch under a hook item of a supported type has an own key \<^verbatim>\<open>hasOwnProperty\<close>.\<close>

definition plain_keys :: "hook_item list \<Rightarrow> bool" where
  "plain_keys hookItems =
     list_all (\<lambda>hookItem. supported (hookType hookItem) \<longrightarrow>
                 ''hasOwnProperty'' \<notin> fst ` set (hook_commands hookItem)) hookItems"

definition eligible :: "hook_item list \<Rightarrow> commands" where
  "eligible hookItems =
     concat (map (\<lambda>hookItem. if supported (hookType hookItem)
                              then recognized (hook_commands hookItem) else [])
               hookItems)"

definition item_count :: "commands \<Rightarrow> nat" where
  "item_count cmds = sum_list (map (\<lambda>(command, e). length (entry_items e)) cmds)"

text \<open>An argument of the constructor that passes its test for an object.\<close>

fun is_plain_object :: "ctor_arg \<Rightarrow> bool" where
  "is_plain_object (ArgObj opts) = True"
| "is_plain_object opts = False"

section \<open>A concrete host\<close>

text \<open>
  A host for the examples. The world is the list of jobs carried out so far. Every
  operation succeeds except on the job \<^verbatim>\<open>"missing"\<close>; the dispatcher reports as many
  completed jobs as it was given.
\<close>

definition example_host :: "jsval list host" where
  "example_host =
     \<lparr>commander = (\<lambda>command item opts w.
        if item = JStr ''missing'' then (Some (JStr ''ENOENT''), w) else (None, w @ [item])),
      masterCluster = (\<lambda>jobs cpu t opts w.
        if JStr ''missing'' \<in> set jobs then (Inl (JStr ''ENOENT''), w)
        else (Inr (JNum (int (length jobs))), w @ jobs)),
      stringify = JSON_stringify\<rparr>"

definition cold :: "jsval list state" where
  "cold = \<lparr>cache = Map.empty, trace = [], world = []\<rparr>"


text \<open>
  A plugin configured with progress tracking and one \<^verbatim>\<open>copy\<close> job at the event
  \<^verbatim>\<open>end\<close>.
\<close>

definition copy_at_end :: plugin where
  "copy_at_end =
     constructor (ArgObj \<lparr>global_options = Some [(''progress'', JBool True)],
                          events = Some [(''end'', Some [(''copy'', EObject (Some [JStr ''a'']) None)])],
                          customHooks = None\<rparr>)"

text \<open>An instance with progress tracking on, after \<^verbatim>\<open>apply\<close> has created the bar.\<close>

definition example_plugin :: plugin where
  "example_plugin =
     \<lparr>this_options = \<lparr>global_options = Some [(''progress'', JBool True)], events = None,
                       customHooks = None\<rparr>,
      this_progress = Some \<lparr>taskName = PROGRESS_TASK_NAME, start = 0, total = 2\<rparr>\<rparr>"

text \<open>The same plugin with \<^verbatim>\<open>copy: null\<close> at the event \<^verbatim>\<open>end\<close>.\<close>

definition null_copy_at_end :: plugin where
  "null_copy_at_end =
     constructor (ArgObj \<lparr>global_options = Some [(''progress'', JBool True)],
                          events = Some [(''end'', Some [(''copy'', ENull)])],
                          customHooks = None\<rparr>)"

section \<open>Basic facts\<close>

text \<open>The definitions to unfold when a run is evaluated on a concrete input.\<close>

lemmas eval_defs = handle_entry_def plugin_handle_entry_def Let_def example_host_def cold_def
  Object_assign_def field_def
  field_or_def items_or_default_def options_or_default_def log_def JSON_stringify_def
  hasOwnProperty_def
  run_cluster_def plugin_run_cluster_def setSpeed_def quote_def quote_char_def COMMAND_LIST_def

lemma state_of_simps [simp]: "state_of (Done s) = s" "state_of (Failed err s) = s"
  by (simp_all add: state_of_def)

lemma log_simps [simp]:
  "trace (log ev w s) = trace s @ [ev]" "cache (log ev w s) = cache s" "world (log ev w s) = w"
  by (simp_all add: log_def)

lemma handle_entry_unfold:
  "handle_entry h g command e s =
     (if skip_condition h g command e s then Done s
      else (case (if truthy (field g ''parallel'')
                  then run_cluster h command (merged g e) (entry_items e) (field g ''parallel'') s
                  else run_items h command (merged g e) (entry_items e) s) of
              Failed err s' \<Rightarrow> Failed err s'
            | Done s' \<Rightarrow>
                Done (if cache_enabled g e
                      then s'\<lparr>cache := (cache s')(command \<mapsto> fingerprint h e)\<rparr> else s')))"
proof -
  have a: "items_or_default (items_of (or_empty e)) = entry_items e"
    by (cases e rule: entry_items.cases) (simp_all add: items_or_default_def)
  have b: "options_or_default (options_of (or_empty e)) = entry_options e"
    by (cases e rule: entry_options.cases) (simp_all add: options_or_default_def)
  show ?thesis
    unfolding handle_entry_def skip_condition_def cache_enabled_def merged_def
      fingerprint_def Let_def a b
    by simp
qed

lemma run_items_Done:
  "run_items h command opts xs s = Done s' \<Longrightarrow>
   trace s' = trace s @ map (\<lambda>i. Commander command i opts) xs \<and> cache s' = cache s \<and>
   world s' = fold (\<lambda>i w. snd (commander h command i opts w)) xs (world s)"
proof (induction xs arbitrary: s)
  case Nil
  then show ?case by simp
next
  case (Cons x xs)
  then show ?case
    by (auto split: prod.splits option.splits)
qed

lemma run_items_Failed:
  "run_items h command opts xs s = Failed err s' \<Longrightarrow>
   cache s' = cache s \<and>
   (\<exists>ys x zs r. xs = ys @ x # zs \<and> err = Rejected r \<and>
      trace s' = trace s @ map (\<lambda>i. Commander command i opts) (ys @ [x]))"
proof (induction xs arbitrary: s)
  case Nil
  then show ?case by simp
next
  case (Cons a xs)
  obtain res w where c: "commander h command a opts (world s) = (res, w)"
    by (cases "commander h command a opts (world s)")
  show ?case
  proof (cases res)
    case None
    with Cons.prems c
    have "run_items h command opts xs (log (Commander command a opts) w s) = Failed err s'"
      by simp
    from Cons.IH [OF this] obtain ys x zs r where
      "cache s' = cache s" "xs = ys @ x # zs" "err = Rejected r"
      "trace s' = trace s @ [Commander command a opts] @ map (\<lambda>i. Commander command i opts) (ys @ [x])"
      by auto
    then have "a # xs = (a # ys) @ x # zs \<and> err = Rejected r \<and>
        trace s' = trace s @ map (\<lambda>i. Commander command i opts) ((a # ys) @ [x])"
      by simp
    with \<open>cache s' = cache s\<close> show ?thesis by blast
  next
    case (Some reason)
    with Cons.prems c have "err = Rejected reason" "s' = log (Commander command a opts) w s"
      by auto
    then have "a # xs = [] @ a # xs \<and> err = Rejected reason \<and>
        trace s' = trace s @ map (\<lambda>i. Commander command i opts) ([] @ [a])"
      by simp
    moreover have "cache s' = cache s" using \<open>s' = _\<close> by simp
    ultimately show ?thesis by blast
  qed
qed

lemma run_cluster_trace:
  "trace (state_of (run_cluster h command opts xs p s)) = trace s @ [MasterCluster xs p command opts]
   \<and> cache (state_of (run_cluster h command opts xs p s)) = cache s"
  by (simp add: run_cluster_def split: prod.splits sum.splits)

lemma calls_simps [simp]:
  "commander_calls [] = []" "cluster_calls [] = []"
  "commander_calls (Commander c i opts # evs) = Commander c i opts # commander_calls evs"
  "commander_calls (MasterCluster jobs cpu t opts # evs) = commander_calls evs"
  "commander_calls (SetSpeed n # evs) = commander_calls evs"
  "cluster_calls (Commander c i opts # evs) = cluster_calls evs"
  "cluster_calls (MasterCluster jobs cpu t opts # evs) = MasterCluster jobs cpu t opts # cluster_calls evs"
  "cluster_calls (SetSpeed n # evs) = cluster_calls evs"
  "commander_calls (evs @ evs') = commander_calls evs @ commander_calls evs'"
  "cluster_calls (evs @ evs') = cluster_calls evs @ cluster_calls evs'"
  by (simp_all add: commander_calls_def cluster_calls_def)

lemma calls_map_Commander [simp]:
  "commander_calls (map (\<lambda>i. Commander c i opts) xs) = map (\<lambda>i. Commander c i opts) xs"
  "cluster_calls (map (\<lambda>i. Commander c i opts) xs) = []"
  by (induction xs) simp_all

lemma setSpeed_cases:
  "(setSpeed this n s = Failed TypeError s \<and> this_progress this = None) \<or>
   (setSpeed this n s = Done (s\<lparr>trace := trace s @ [SetSpeed n]\<rparr>) \<and> this_progress this \<noteq> None)"
  by (simp add: setSpeed_def split: option.splits)

lemma plugin_run_items_calls:
  "\<exists>evs n. trace (state_of (plugin_run_items h this progress command opts xs s)) = trace s @ evs
     \<and> n \<le> length xs
     \<and> commander_calls evs = map (\<lambda>i. Commander command i opts) (take n xs)
     \<and> cluster_calls evs = []
     \<and> (\<forall>s'. plugin_run_items h this progress command opts xs s = Done s' \<longrightarrow>
           n = length xs \<and> world s' = fold (\<lambda>i w. snd (commander h command i opts w)) xs (world s))"
proof (induction xs arbitrary: s)
  case Nil
  show ?case by (rule exI [of _ "[]"], rule exI [of _ 0]) simp
next
  case (Cons a xs)
  let ?ev = "Commander command a opts"
  obtain res w where c: "commander h command a opts (world s) = (res, w)"
    by (cases "commander h command a opts (world s)")
  let ?s1 = "log ?ev w s"
  show ?case
  proof (cases res)
    case (Some reason)
    with c have "plugin_run_items h this progress command opts (a # xs) s = Failed (Rejected reason) ?s1"
      by simp
    then show ?thesis
      by (intro exI [of _ "[?ev]"] exI [of _ 1]) simp
  next
    case None
    let ?mid = "if truthy progress then setSpeed this (JNum 1) ?s1 else Done ?s1"
    from None c have unfold: "plugin_run_items h this progress command opts (a # xs) s =
        (case ?mid of Failed err s' \<Rightarrow> Failed err s'
         | Done s' \<Rightarrow> plugin_run_items h this progress command opts xs s')"
      by simp
    show ?thesis
    proof (cases ?mid)
      case (Failed err s2)
      then have "s2 = ?s1"
        using setSpeed_cases [of this "JNum 1" ?s1] by (auto split: if_splits)
      with Failed unfold
      have "plugin_run_items h this progress command opts (a # xs) s = Failed err ?s1"
        by simp
      then show ?thesis
        by (intro exI [of _ "[?ev]"] exI [of _ 1]) simp
    next
      case (Done s2)
      then obtain sp where s2: "trace s2 = trace s @ ?ev # sp" "commander_calls sp = []"
        "cluster_calls sp = []" "world s2 = w"
        using setSpeed_cases [of this "JNum 1" ?s1] by (auto split: if_splits)
      from Done unfold
      have r: "plugin_run_items h this progress command opts (a # xs) s =
          plugin_run_items h this progress command opts xs s2"
        by simp
      from Cons.IH [of s2] obtain evs n where ih:
        "trace (state_of (plugin_run_items h this progress command opts xs s2)) = trace s2 @ evs"
        "n \<le> length xs"
        "commander_calls evs = map (\<lambda>i. Commander command i opts) (take n xs)"
        "cluster_calls evs = []"
        "\<forall>s'. plugin_run_items h this progress command opts xs s2 = Done s' \<longrightarrow>
           n = length xs \<and> world s' = fold (\<lambda>i w. snd (commander h command i opts w)) xs (world s2)"
        by blast
      show ?thesis
        using r ih s2 c
        by (intro exI [of _ "?ev # sp @ evs"] exI [of _ "Suc n"]) simp
    qed
  qed
qed

lemma plugin_run_items_progress_Done:
  assumes "truthy progress" "this_progress this = Some bar"
  shows "plugin_run_items h this progress command opts xs s = Done s' \<Longrightarrow>
    trace s' = trace s @ concat (map (\<lambda>i. [Commander command i opts, SetSpeed (JNum 1)]) xs)"
proof (induction xs arbitrary: s)
  case Nil
  then show ?case by simp
next
  case (Cons a xs)
  then show ?case using assms
    by (auto simp: setSpeed_def split: prod.splits option.splits)
qed

lemma plugin_run_items_progress_Failed:
  assumes "truthy progress" "this_progress this = Some bar"
  shows "plugin_run_items h this progress command opts xs s = Failed err s' \<Longrightarrow>
    \<exists>ys x zs r. xs = ys @ x # zs \<and> err = Rejected r \<and>
      trace s' = trace s @ concat (map (\<lambda>i. [Commander command i opts, SetSpeed (JNum 1)]) ys)
                 @ [Commander command x opts]"
proof (induction xs arbitrary: s)
  case Nil
  then show ?case by simp
next
  case (Cons a xs)
  let ?ev = "Commander command a opts"
  obtain res w where c: "commander h command a opts (world s) = (res, w)"
    by (cases "commander h command a opts (world s)")
  show ?case
  proof (cases res)
    case (Some reason)
    with c Cons.prems have "err = Rejected reason" "s' = log ?ev w s"
      by auto
    then have "a # xs = [] @ a # xs \<and> err = Rejected reason \<and>
      trace s' = trace s @ concat (map (\<lambda>i. [Commander command i opts, SetSpeed (JNum 1)]) [])
                 @ [Commander command a opts]"
      by simp
    then show ?thesis by blast
  next
    case None
    let ?s1 = "(log ?ev w s)\<lparr>trace := trace (log ?ev w s) @ [SetSpeed (JNum 1)]\<rparr>"
    from None c Cons.prems assms
    have "plugin_run_items h this progress command opts xs ?s1 = Failed err s'"
      by (simp add: setSpeed_def)
    from Cons.IH [OF this] obtain ys x zs r where
      "xs = ys @ x # zs" "err = Rejected r"
      "trace s' = trace ?s1 @ concat (map (\<lambda>i. [Commander command i opts, SetSpeed (JNum 1)]) ys)
                 @ [Commander command x opts]"
      by blast
    then have "a # xs = (a # ys) @ x # zs \<and> err = Rejected r \<and>
      trace s' = trace s @ concat (map (\<lambda>i. [Commander command i opts, SetSpeed (JNum 1)]) (a # ys))
                 @ [Commander command x opts]"
      by simp
    then show ?thesis by blast
  qed
qed


section \<open>The dispatch path\<close>

lemma plugin_handle_entry_unfold:
  "plugin_handle_entry h this g command (EObject its opt) s =
     (if truthy (field g ''parallel'')
      then plugin_run_cluster h this (field g ''progress'') command (merged g (EObject its opt))
             (entry_items (EObject its opt)) (field g ''parallel'') s
      else plugin_run_items h this (field g ''progress'') command (merged g (EObject its opt))
             (entry_items (EObject its opt)) s)"
proof -
  have a: "items_or_default its = entry_items (EObject its opt)"
    by (cases its) (simp_all add: items_or_default_def)
  have b: "options_or_default opt = entry_options (EObject its opt)"
    by (cases opt) (simp_all add: options_or_default_def)
  show ?thesis
    unfolding plugin_handle_entry_def merged_def Let_def entry.case a b
    by simp
qed

lemma run_items_calls:
  "\<exists>n. n \<le> length xs \<and> (xs \<noteq> [] \<longrightarrow> 0 < n)
     \<and> trace (state_of (run_items h command opts xs s)) =
         trace s @ map (\<lambda>i. Commander command i opts) (take n xs)
     \<and> (\<forall>s'. run_items h command opts xs s = Done s' \<longrightarrow>
           n = length xs \<and> world s' = fold (\<lambda>i w. snd (commander h command i opts w)) xs (world s))"
proof (cases "run_items h command opts xs s")
  case (Done s')
  from run_items_Done [OF this] Done show ?thesis
    by (intro exI [of _ "length xs"]) auto
next
  case (Failed err s')
  from run_items_Failed [OF this] obtain ys x zs where
    xs: "xs = ys @ x # zs" and
    t: "trace s' = trace s @ map (\<lambda>i. Commander command i opts) (ys @ [x])"
    by blast
  have "take (Suc (length ys)) xs = ys @ [x]" using xs by simp
  with t xs Failed show ?thesis
    by (intro exI [of _ "Suc (length ys)"]) auto
qed

lemma plugin_run_cluster_cases:
  "(\<exists>reason w. masterCluster h xs p command opts (world s) = (Inl reason, w) \<and>
      plugin_run_cluster h this progress command opts xs p s =
        Failed (Rejected reason) (log (MasterCluster xs p command opts) w s)) \<or>
   (\<exists>n w. masterCluster h xs p command opts (world s) = (Inr n, w) \<and>
      plugin_run_cluster h this progress command opts xs p s =
        (if truthy progress then setSpeed this n (log (MasterCluster xs p command opts) w s)
         else Done (log (MasterCluster xs p command opts) w s)))"
  by (auto simp: plugin_run_cluster_def split: prod.splits sum.splits)

lemma plugin_run_cluster_calls:
  "\<exists>evs. trace (state_of (plugin_run_cluster h this progress command opts xs p s)) = trace s @ evs
     \<and> cluster_calls evs = [MasterCluster xs p command opts] \<and> commander_calls evs = []"
proof -
  let ?ev = "MasterCluster xs p command opts"
  from plugin_run_cluster_cases [of h xs p command opts s this progress]
  consider (rej) reason w where
      "plugin_run_cluster h this progress command opts xs p s = Failed (Rejected reason) (log ?ev w s)"
    | (res) n w where "plugin_run_cluster h this progress command opts xs p s =
        (if truthy progress then setSpeed this n (log ?ev w s) else Done (log ?ev w s))"
    by blast
  then show ?thesis
  proof cases
    case rej
    then show ?thesis by (intro exI [of _ "[?ev]"]) simp
  next
    case res
    show ?thesis
    proof (cases "truthy progress \<and> this_progress this \<noteq> None")
      case True
      with res show ?thesis
        by (intro exI [of _ "[?ev, SetSpeed n]"]) (auto simp: setSpeed_def)
    next
      case False
      with res show ?thesis
        by (intro exI [of _ "[?ev]"]) (auto simp: setSpeed_def)
    qed
  qed
qed

text \<open>
  Claim C1, as the code has it. The dispatch path of a command that is processed is
  decided by the \<^verbatim>\<open>parallel\<close> of the global options alone: when it is truthy, the
  only call is one call of the dispatcher, with the full item list, that global value
  as the worker count, the command name and the merged options; when it is falsy, there
  is no dispatcher call and the executor is called on a prefix of the items. A
  \<^verbatim>\<open>parallel\<close> among the options of the command travels in the merged options and has
  no part in the decision. This holds for the orchestrator with the cache (for a command
  that is not skipped) and for the method of the plugin.
\<close>

theorem dispatch_by_global_parallel:
  "(\<not> skip_condition h g command e s \<longrightarrow>
      (\<exists>evs. trace (state_of (handle_entry h g command e s)) = trace s @ evs \<and>
         (if truthy (field g ''parallel'')
          then evs = [MasterCluster (entry_items e) (field g ''parallel'') command (merged g e)]
          else (\<exists>n. 0 < n \<and>
                 evs = map (\<lambda>i. Commander command i (merged g e)) (take n (entry_items e))))))
   \<and> (\<exists>evs. trace (state_of (plugin_handle_entry h this g command (EObject its opt) s)) =
              trace s @ evs \<and>
         (if truthy (field g ''parallel'')
          then cluster_calls evs =
                 [MasterCluster (entry_items (EObject its opt)) (field g ''parallel'') command
                    (merged g (EObject its opt))]
               \<and> commander_calls evs = []
          else cluster_calls evs = []
               \<and> (\<exists>n. commander_calls evs =
                     map (\<lambda>i. Commander command i (merged g (EObject its opt)))
                       (take n (entry_items (EObject its opt))))))"
proof (intro conjI impI)
  assume ns: "\<not> skip_condition h g command e s"
  show "\<exists>evs. trace (state_of (handle_entry h g command e s)) = trace s @ evs \<and>
         (if truthy (field g ''parallel'')
          then evs = [MasterCluster (entry_items e) (field g ''parallel'') command (merged g e)]
          else (\<exists>n. 0 < n \<and>
                 evs = map (\<lambda>i. Commander command i (merged g e)) (take n (entry_items e))))"
  proof (cases "truthy (field g ''parallel'')")
    case True
    let ?r = "run_cluster h command (merged g e) (entry_items e) (field g ''parallel'') s"
    have "trace (state_of (handle_entry h g command e s)) = trace (state_of ?r)"
      using ns True by (simp add: handle_entry_unfold split: run.splits)
    with True show ?thesis
      using run_cluster_trace [of h command "merged g e" "entry_items e" "field g ''parallel''" s]
      by simp
  next
    case False
    let ?r = "run_items h command (merged g e) (entry_items e) s"
    have t: "trace (state_of (handle_entry h g command e s)) = trace (state_of ?r)"
      using ns False by (simp add: handle_entry_unfold split: run.splits)
    from ns have "entry_items e \<noteq> []" by (simp add: skip_condition_def)
    with run_items_calls [of "entry_items e" h command "merged g e" s] t False
    show ?thesis by auto
  qed
next
  show "\<exists>evs. trace (state_of (plugin_handle_entry h this g command (EObject its opt) s)) =
              trace s @ evs \<and>
         (if truthy (field g ''parallel'')
          then cluster_calls evs =
                 [MasterCluster (entry_items (EObject its opt)) (field g ''parallel'') command
                    (merged g (EObject its opt))]
               \<and> commander_calls evs = []
          else cluster_calls evs = []
               \<and> (\<exists>n. commander_calls evs =
                     map (\<lambda>i. Commander command i (merged g (EObject its opt)))
                       (take n (entry_items (EObject its opt)))))"
  proof (cases "truthy (field g ''parallel'')")
    case True
    with plugin_run_cluster_calls [of h this "field g ''progress''" command
        "merged g (EObject its opt)" "entry_items (EObject its opt)" "field g ''parallel''" s]
    show ?thesis by (simp add: plugin_handle_entry_unfold)
  next
    case False
    from plugin_run_items_calls [of h this "field g ''progress''" command
        "merged g (EObject its opt)" "entry_items (EObject its opt)" s]
    obtain evs n where
      "trace (state_of (plugin_run_items h this (field g ''progress'') command
          (merged g (EObject its opt)) (entry_items (EObject its opt)) s)) = trace s @ evs"
      "commander_calls evs = map (\<lambda>i. Commander command i (merged g (EObject its opt)))
          (take n (entry_items (EObject its opt)))"
      "cluster_calls evs = []"
      by blast
    with False show ?thesis by (auto simp: plugin_handle_entry_unfold)
  qed
qed

theorem dispatch_by_global_parallel_witness:
  "\<not> skip_condition example_host [(''parallel'', JNum 2)] ''copy''
       (EObject (Some [JStr ''a'', JStr ''b'']) None) cold
   \<and> truthy (field [(''parallel'', JNum 2)] ''parallel'')
   \<and> trace (state_of (handle_entry example_host [(''parallel'', JNum 2)] ''copy''
         (EObject (Some [JStr ''a'', JStr ''b'']) None) cold)) =
       [MasterCluster [JStr ''a'', JStr ''b''] (JNum 2) ''copy'' [(''parallel'', JNum 2)]]"
proof -
  let ?e = "EObject (Some [JStr ''a'', JStr ''b'']) None"
  let ?g = "[(''parallel'', JNum 2)]"
  have ns: "\<not> skip_condition example_host ?g ''copy'' ?e cold"
    by (simp add: skip_condition_def cold_def)
  have p: "truthy (field ?g ''parallel'')"
    by (simp add: field_def)
  have v: "entry_items ?e = [JStr ''a'', JStr ''b'']" "merged ?g ?e = ?g"
    "field ?g ''parallel'' = JNum 2" "trace cold = []"
    by (simp_all add: merged_def eval_defs)
  from dispatch_by_global_parallel [of example_host ?g "''copy''" ?e cold
      "constructor ArgUndefined" None None] ns p
  have "trace (state_of (handle_entry example_host ?g ''copy'' ?e cold)) =
      trace cold @ [MasterCluster (entry_items ?e) (field ?g ''parallel'') ''copy'' (merged ?g ?e)]"
    by auto
  with ns p v show ?thesis by simp
qed

text \<open>
  Claim C1 as stated fails. With no global worker count and \<^verbatim>\<open>parallel: 2\<close> among the
  options of the command, the merged options carry a positive worker count, yet both
  functions run the item through the executor and never call the dispatcher. With a
  global \<^verbatim>\<open>parallel: 2\<close> and \<^verbatim>\<open>parallel: 0\<close> for the command, the merged options
  carry none, yet the dispatcher is called.
\<close>

theorem merged_parallel_counterexample:
  "truthy (field (merged [] (EObject (Some [JStr ''a'']) (Some [(''parallel'', JNum 2)]))) ''parallel'')
   \<and> \<not> skip_condition example_host [] ''copy''
         (EObject (Some [JStr ''a'']) (Some [(''parallel'', JNum 2)])) cold
   \<and> trace (state_of (handle_entry example_host [] ''copy''
         (EObject (Some [JStr ''a'']) (Some [(''parallel'', JNum 2)])) cold)) =
       [Commander ''copy'' (JStr ''a'') [(''parallel'', JNum 2)]]
   \<and> trace (state_of (plugin_handle_entry example_host (constructor ArgUndefined) [] ''copy''
         (EObject (Some [JStr ''a'']) (Some [(''parallel'', JNum 2)])) cold)) =
       [Commander ''copy'' (JStr ''a'') [(''parallel'', JNum 2)]]
   \<and> \<not> truthy (field (merged [(''parallel'', JNum 2)]
         (EObject (Some [JStr ''a'']) (Some [(''parallel'', JNum 0)]))) ''parallel'')
   \<and> trace (state_of (handle_entry example_host [(''parallel'', JNum 2)] ''copy''
         (EObject (Some [JStr ''a'']) (Some [(''parallel'', JNum 0)])) cold)) =
       [MasterCluster [JStr ''a''] (JNum 2) ''copy'' [(''parallel'', JNum 0)]]"
  by (simp add: merged_def skip_condition_def cache_enabled_def eval_defs
      constructor_def)

section \<open>Items that resolve, items that reject\<close>

lemma world_after_simps [simp]:
  "world_after h command opts [] w = w"
  "world_after h command opts (x # xs) w =
     world_after h command opts xs (snd (commander h command x opts w))"
  by (simp_all add: world_after_def)

lemma world_after_append:
  "world_after h command opts (ys @ zs) w =
     world_after h command opts zs (world_after h command opts ys w)"
  by (simp add: world_after_def)

lemma calls_simps2 [simp]:
  "calls command opts [] = []"
  "calls command opts (x # xs) = Commander command x opts # calls command opts xs"
  "calls command opts (ys @ zs) = calls command opts ys @ calls command opts zs"
  by (simp_all add: calls_def)

lemma run_items_resolves:
  "resolves_all h command opts xs (world s) \<Longrightarrow>
   run_items h command opts xs s =
     Done (s\<lparr>trace := trace s @ calls command opts xs,
             world := world_after h command opts xs (world s)\<rparr>)"
proof (induction xs arbitrary: s)
  case Nil
  show ?case by simp
next
  case (Cons x xs)
  obtain w where c: "commander h command x opts (world s) = (None, w)"
    using Cons.prems by (cases "commander h command x opts (world s)") auto
  with Cons.prems have "resolves_all h command opts xs (world (log (Commander command x opts) w s))"
    by simp
  from Cons.IH [OF this] c show ?case
    by (simp add: log_def)
qed

lemma run_items_rejects:
  "resolves_all h command opts ys (world s) \<Longrightarrow>
   commander h command x opts (world_after h command opts ys (world s)) = (Some reason, w') \<Longrightarrow>
   run_items h command opts (ys @ x # zs) s =
     Failed (Rejected reason) (s\<lparr>trace := trace s @ calls command opts (ys @ [x]), world := w'\<rparr>)"
proof (induction ys arbitrary: s)
  case Nil
  then show ?case by (simp add: log_def)
next
  case (Cons y ys)
  obtain w where c: "commander h command y opts (world s) = (None, w)"
    using Cons.prems(1) by (cases "commander h command y opts (world s)") auto
  let ?s1 = "log (Commander command y opts) w s"
  from Cons.prems c have "resolves_all h command opts ys (world ?s1)"
    and "commander h command x opts (world_after h command opts ys (world ?s1)) = (Some reason, w')"
    by simp_all
  from Cons.IH [OF this] c show ?case
    by (simp add: log_def)
qed

text \<open>
  The events of the loop of the plugin on items that resolve: each executor call, followed
  by \<^verbatim>\<open>setSpeed(1)\<close> when progress is tracked.
\<close>

lemma plugin_run_items_resolves:
  assumes bar: "truthy progress \<longrightarrow> this_progress this \<noteq> None"
  shows "resolves_all h command opts xs (world s) \<Longrightarrow>
   plugin_run_items h this progress command opts xs s =
     Done (s\<lparr>trace := trace s @
               concat (map (\<lambda>i. Commander command i opts #
                                 (if truthy progress then [SetSpeed (JNum 1)] else [])) xs),
             world := world_after h command opts xs (world s)\<rparr>)"
proof (induction xs arbitrary: s)
  case Nil
  show ?case by simp
next
  case (Cons x xs)
  obtain w where c: "commander h command x opts (world s) = (None, w)"
    using Cons.prems by (cases "commander h command x opts (world s)") auto
  let ?s1 = "log (Commander command x opts) w s"
  let ?s2 = "if truthy progress then ?s1\<lparr>trace := trace ?s1 @ [SetSpeed (JNum 1)]\<rparr> else ?s1"
  have mid: "(if truthy progress then setSpeed this (JNum 1) ?s1 else Done ?s1) = Done ?s2"
    using bar by (auto simp: setSpeed_def)
  from Cons.prems c have "resolves_all h command opts xs (world ?s2)"
    by simp
  from Cons.IH [OF this] c mid show ?case
    by (simp add: log_def)
qed

lemma plugin_run_items_rejects:
  assumes bar: "truthy progress \<longrightarrow> this_progress this \<noteq> None"
  shows "resolves_all h command opts ys (world s) \<Longrightarrow>
   commander h command x opts (world_after h command opts ys (world s)) = (Some reason, w') \<Longrightarrow>
   plugin_run_items h this progress command opts (ys @ x # zs) s =
     Failed (Rejected reason)
       (s\<lparr>trace := trace s @
               concat (map (\<lambda>i. Commander command i opts #
                                 (if truthy progress then [SetSpeed (JNum 1)] else [])) ys)
               @ [Commander command x opts],
          world := w'\<rparr>)"
proof (induction ys arbitrary: s)
  case Nil
  then show ?case by (simp add: log_def)
next
  case (Cons y ys)
  obtain w where c: "commander h command y opts (world s) = (None, w)"
    using Cons.prems(1) by (cases "commander h command y opts (world s)") auto
  let ?s1 = "log (Commander command y opts) w s"
  let ?s2 = "if truthy progress then ?s1\<lparr>trace := trace ?s1 @ [SetSpeed (JNum 1)]\<rparr> else ?s1"
  have mid: "(if truthy progress then setSpeed this (JNum 1) ?s1 else Done ?s1) = Done ?s2"
    using bar by (auto simp: setSpeed_def)
  from Cons.prems c have "resolves_all h command opts ys (world ?s2)"
    and "commander h command x opts (world_after h command opts ys (world ?s2)) = (Some reason, w')"
    by simp_all
  from Cons.IH [OF this] c mid show ?case
    by (simp add: log_def)
qed

section \<open>The merge\<close>

lemma map_of_fold_update:
  "map_of (fold (\<lambda>(k, v). AList.update k v) xs acc) = map_of acc ++ map_of (rev xs)"
proof (induction xs arbitrary: acc)
  case Nil
  show ?case by simp
next
  case (Cons x xs)
  obtain k v where x: "x = (k, v)" by (cases x)
  have "map_of (fold (\<lambda>(k, v). AList.update k v) (x # xs) acc) =
      map_of (AList.update k v acc) ++ map_of (rev xs)"
    using Cons.IH [of "AList.update k v acc"] x by simp
  also have "\<dots> = map_of acc ++ map_of (rev (x # xs))"
    using x by (simp add: AList.update_conv' fun_eq_iff map_add_def split: option.splits)
  finally show ?case .
qed

lemma map_of_rev_distinct:
  "distinct (map fst xs) \<Longrightarrow> map_of (rev xs) = map_of xs"
proof (induction xs)
  case Nil
  show ?case by simp
next
  case (Cons x xs)
  obtain k v where x: "x = (k, v)" by (cases x)
  from Cons.prems x have "map_of xs k = None"
    by (simp add: map_of_eq_None_iff)
  with Cons x show ?case
    by (auto simp: fun_eq_iff map_add_def split: option.splits)
qed

text \<open>
  \<^verbatim>\<open>Object.assign({}, globalOptions, options)\<close> is the merge of the specification: under
  every key the value of the command's options if the key is there, the value of the
  global options otherwise.
\<close>

lemma field_merged:
  assumes "distinct (map fst g)" and "distinct (map fst (entry_options e))"
  shows "field (merged g e) k = override g (entry_options e) k"
  using assms
  by (simp add: merged_def Object_assign_def field_def override_def map_of_fold_update
      map_of_rev_distinct map_add_def split: option.splits)

lemma skip_condition_skips:
  assumes "distinct (map fst g)" and "distinct (map fst (entry_options e))"
  shows "skip_condition h g command e s = skips h g command e s"
  using field_merged [OF assms, of "''cache''"]
  by (simp add: skip_condition_def skips_def cache_enabled_def cache_flag_def field_or_def
      fingerprint_def)

section \<open>The loop over the batch\<close>


lemma plugin_handle_commands_step:
  "''hasOwnProperty'' \<notin> fst ` set batch \<Longrightarrow>
   plugin_handle_commands h this g batch ((command, e) # rest) s =
     (if command \<in> fst ` set batch \<and> command \<in> set COMMAND_LIST
      then (case plugin_handle_entry h this g command e s of
              Failed err s' \<Rightarrow> Failed err s'
            | Done s' \<Rightarrow> plugin_handle_commands h this g batch rest s')
      else plugin_handle_commands h this g batch rest s)"
  by (simp add: hasOwnProperty_def)

lemma handle_commands_shadowed:
  "''hasOwnProperty'' \<in> fst ` set batch \<Longrightarrow> cmds \<noteq> [] \<Longrightarrow>
   handle_commands h g batch cmds s = Failed TypeError s"
proof -
  assume k: "''hasOwnProperty'' \<in> fst ` set batch" and "cmds \<noteq> []"
  then obtain command e rest where "cmds = (command, e) # rest"
    by (cases cmds) auto
  with k show ?thesis by (simp add: hasOwnProperty_def)
qed

lemma plugin_handle_commands_shadowed:
  "''hasOwnProperty'' \<in> fst ` set batch \<Longrightarrow> cmds \<noteq> [] \<Longrightarrow>
   plugin_handle_commands h this g batch cmds s = Failed TypeError s"
proof -
  assume k: "''hasOwnProperty'' \<in> fst ` set batch" and "cmds \<noteq> []"
  then obtain command e rest where "cmds = (command, e) # rest"
    by (cases cmds) auto
  with k show ?thesis by (simp add: hasOwnProperty_def)
qed

section \<open>The skip condition\<close>




section \<open>Cache update and failure\<close>

lemma handle_entry_sequential:
  assumes "\<not> skip_condition h g command e s" and "\<not> truthy (field g ''parallel'')"
  shows "handle_entry h g command e s =
     (case run_items h command (merged g e) (entry_items e) s of
        Failed err s' \<Rightarrow> Failed err s'
      | Done s' \<Rightarrow>
          Done (if cache_enabled g e
                then s'\<lparr>cache := (cache s')(command \<mapsto> fingerprint h e)\<rparr> else s'))"
  using assms by (simp add: handle_entry_unfold)





section \<open>Sequential order\<close>

lemma commander_calls_steps [simp]:
  "commander_calls (concat (map (\<lambda>i. Commander command i opts #
       (if truthy progress then [SetSpeed (JNum 1)] else [])) xs)) = calls command opts xs"
  by (induction xs) simp_all

lemma apply_creates_bar:
  assumes "plugin_apply this compiler = Inr (this', regs)"
  shows "globalOptions_of this' = globalOptions_of this
       \<and> (truthy (field (globalOptions_of this) ''progress'') \<longrightarrow> this_progress this' \<noteq> None)"
  using assms
  by (auto simp: plugin_apply_def translateHooks_def globalOptions_of_def Let_def
      split: sum.splits prod.splits if_splits)

text \<open>
  Claim C5. With a falsy \<^verbatim>\<open>parallel\<close> among the global options, in both functions:
  if the executor resolves on every item, the executor calls of the command are exactly
  the calls on the items, in list order, with the merged options, each made on the world
  the previous call left; if the executor resolves on the items \<open>ys\<close> and rejects on the
  next item \<open>x\<close>, they are exactly the calls on \<open>ys\<close> and \<open>x\<close>. For \<^verbatim>\<open>part_000\<close> the
  command is one that is not skipped; for the method of the plugin the progress bar
  exists when progress is tracked, as it does once \<^verbatim>\<open>apply\<close> has run.
\<close>

theorem sequential_in_order:
  assumes "\<not> truthy (field g ''parallel'')"
  shows
   "(distinct (map fst g) \<and> distinct (map fst (entry_options e)) \<and> \<not> skips h g command e s \<longrightarrow>
      (resolves_all h command (merged g e) (entry_items e) (world s) \<longrightarrow>
         (\<exists>s'. handle_entry h g command e s = Done s')
       \<and> trace (state_of (handle_entry h g command e s)) =
           trace s @ calls command (merged g e) (entry_items e)
       \<and> world (state_of (handle_entry h g command e s)) =
           world_after h command (merged g e) (entry_items e) (world s))
    \<and> (\<forall>ys x zs reason w'.
            entry_items e = ys @ x # zs
          \<and> resolves_all h command (merged g e) ys (world s)
          \<and> commander h command x (merged g e)
               (world_after h command (merged g e) ys (world s)) = (Some reason, w')
          \<longrightarrow> handle_entry h g command e s =
                Failed (Rejected reason)
                  (s\<lparr>trace := trace s @ calls command (merged g e) (ys @ [x]), world := w'\<rparr>)))
  \<and> ((truthy (field g ''progress'') \<longrightarrow> this_progress this \<noteq> None) \<longrightarrow>
      (resolves_all h command (merged g (EObject its opt)) (entry_items (EObject its opt)) (world s) \<longrightarrow>
         (\<exists>s'. plugin_handle_entry h this g command (EObject its opt) s = Done s')
       \<and> commander_calls (trace (state_of (plugin_handle_entry h this g command (EObject its opt) s))) =
           commander_calls (trace s) @
             calls command (merged g (EObject its opt)) (entry_items (EObject its opt))
       \<and> world (state_of (plugin_handle_entry h this g command (EObject its opt) s)) =
           world_after h command (merged g (EObject its opt)) (entry_items (EObject its opt))
             (world s))
    \<and> (\<forall>ys x zs reason w'.
            entry_items (EObject its opt) = ys @ x # zs
          \<and> resolves_all h command (merged g (EObject its opt)) ys (world s)
          \<and> commander h command x (merged g (EObject its opt))
               (world_after h command (merged g (EObject its opt)) ys (world s)) = (Some reason, w')
          \<longrightarrow> (\<exists>s'. plugin_handle_entry h this g command (EObject its opt) s =
                       Failed (Rejected reason) s')
            \<and> commander_calls
                 (trace (state_of (plugin_handle_entry h this g command (EObject its opt) s))) =
               commander_calls (trace s) @
                 calls command (merged g (EObject its opt)) (ys @ [x])
            \<and> world (state_of (plugin_handle_entry h this g command (EObject its opt) s)) = w'))"
proof (intro conjI impI allI)
  assume a: "distinct (map fst g) \<and> distinct (map fst (entry_options e)) \<and> \<not> skips h g command e s"
  then have ns: "\<not> skip_condition h g command e s"
    by (simp add: skip_condition_skips)
  note u = handle_entry_sequential [OF ns assms]
  {
    assume r: "resolves_all h command (merged g e) (entry_items e) (world s)"
    from run_items_resolves [OF r]
    show "\<exists>s'. handle_entry h g command e s = Done s'"
      and "trace (state_of (handle_entry h g command e s)) =
           trace s @ calls command (merged g e) (entry_items e)"
      and "world (state_of (handle_entry h g command e s)) =
           world_after h command (merged g e) (entry_items e) (world s)"
      by (simp_all add: u)
  }
  {
    fix ys x zs reason w'
    assume "entry_items e = ys @ x # zs
          \<and> resolves_all h command (merged g e) ys (world s)
          \<and> commander h command x (merged g e)
               (world_after h command (merged g e) ys (world s)) = (Some reason, w')"
    then have i: "entry_items e = ys @ x # zs"
      and r: "resolves_all h command (merged g e) ys (world s)"
      and c: "commander h command x (merged g e)
               (world_after h command (merged g e) ys (world s)) = (Some reason, w')"
      by simp_all
    from run_items_rejects [OF r c, of zs] i
    show "handle_entry h g command e s =
                Failed (Rejected reason)
                  (s\<lparr>trace := trace s @ calls command (merged g e) (ys @ [x]), world := w'\<rparr>)"
      by (simp add: u)
  }
next
  assume bar: "truthy (field g ''progress'') \<longrightarrow> this_progress this \<noteq> None"
  let ?e = "EObject its opt"
  have u: "plugin_handle_entry h this g command ?e s =
      plugin_run_items h this (field g ''progress'') command (merged g ?e) (entry_items ?e) s"
    using assms by (simp add: plugin_handle_entry_unfold)
  {
    assume r: "resolves_all h command (merged g ?e) (entry_items ?e) (world s)"
    from plugin_run_items_resolves [OF bar r]
    show "\<exists>s'. plugin_handle_entry h this g command ?e s = Done s'"
      and "commander_calls (trace (state_of (plugin_handle_entry h this g command ?e s))) =
           commander_calls (trace s) @ calls command (merged g ?e) (entry_items ?e)"
      and "world (state_of (plugin_handle_entry h this g command ?e s)) =
           world_after h command (merged g ?e) (entry_items ?e) (world s)"
      by (simp_all add: u)
  }
  {
    fix ys x zs reason w'
    assume "entry_items ?e = ys @ x # zs
          \<and> resolves_all h command (merged g ?e) ys (world s)
          \<and> commander h command x (merged g ?e)
               (world_after h command (merged g ?e) ys (world s)) = (Some reason, w')"
    then have i: "entry_items ?e = ys @ x # zs"
      and r: "resolves_all h command (merged g ?e) ys (world s)"
      and c: "commander h command x (merged g ?e)
               (world_after h command (merged g ?e) ys (world s)) = (Some reason, w')"
      by simp_all
    from plugin_run_items_rejects [OF bar r c, of zs] i
    show "\<exists>s'. plugin_handle_entry h this g command ?e s = Failed (Rejected reason) s'"
      and "commander_calls (trace (state_of (plugin_handle_entry h this g command ?e s))) =
               commander_calls (trace s) @ calls command (merged g ?e) (ys @ [x])"
      and "world (state_of (plugin_handle_entry h this g command ?e s)) = w'"
      by (simp_all add: u)
  }
qed

theorem sequential_in_order_witness:
  "\<not> truthy (field [(''progress'', JBool True)] ''parallel'')
   \<and> trace (state_of (handle_entry example_host [(''progress'', JBool True)] ''copy''
        (EObject (Some [JStr ''b'', JStr ''a'', JStr ''c'']) (Some [(''force'', JBool False)])) cold)) =
       [Commander ''copy'' (JStr ''b'') [(''progress'', JBool True), (''force'', JBool False)],
        Commander ''copy'' (JStr ''a'') [(''progress'', JBool True), (''force'', JBool False)],
        Commander ''copy'' (JStr ''c'') [(''progress'', JBool True), (''force'', JBool False)]]
   \<and> world (state_of (handle_entry example_host [(''progress'', JBool True)] ''copy''
        (EObject (Some [JStr ''b'', JStr ''a'', JStr ''c'']) (Some [(''force'', JBool False)])) cold)) =
       [JStr ''b'', JStr ''a'', JStr ''c'']
   \<and> handle_entry example_host [(''progress'', JBool True)] ''copy''
        (EObject (Some [JStr ''b'', JStr ''missing'', JStr ''c'']) (Some [(''force'', JBool False)])) cold =
       Failed (Rejected (JStr ''ENOENT''))
         \<lparr>cache = Map.empty,
          trace = [Commander ''copy'' (JStr ''b'') [(''progress'', JBool True), (''force'', JBool False)],
                   Commander ''copy'' (JStr ''missing'')
                     [(''progress'', JBool True), (''force'', JBool False)]],
          world = [JStr ''b'']\<rparr>
   \<and> commander_calls (trace (state_of (plugin_handle_entry example_host example_plugin
        [(''progress'', JBool True)] ''copy''
        (EObject (Some [JStr ''b'', JStr ''a'', JStr ''c'']) (Some [(''force'', JBool False)])) cold))) =
       [Commander ''copy'' (JStr ''b'') [(''progress'', JBool True), (''force'', JBool False)],
        Commander ''copy'' (JStr ''a'') [(''progress'', JBool True), (''force'', JBool False)],
        Commander ''copy'' (JStr ''c'') [(''progress'', JBool True), (''force'', JBool False)]]
   \<and> world (state_of (plugin_handle_entry example_host example_plugin
        [(''progress'', JBool True)] ''copy''
        (EObject (Some [JStr ''b'', JStr ''a'', JStr ''c'']) (Some [(''force'', JBool False)])) cold)) =
       [JStr ''b'', JStr ''a'', JStr ''c'']
   \<and> commander_calls (trace (state_of (plugin_handle_entry example_host example_plugin
        [(''progress'', JBool True)] ''copy''
        (EObject (Some [JStr ''b'', JStr ''missing'', JStr ''c'']) (Some [(''force'', JBool False)])) cold))) =
       [Commander ''copy'' (JStr ''b'') [(''progress'', JBool True), (''force'', JBool False)],
        Commander ''copy'' (JStr ''missing'') [(''progress'', JBool True), (''force'', JBool False)]]
   \<and> world (state_of (plugin_handle_entry example_host example_plugin
        [(''progress'', JBool True)] ''copy''
        (EObject (Some [JStr ''b'', JStr ''missing'', JStr ''c'']) (Some [(''force'', JBool False)])) cold)) =
       [JStr ''b'']"
proof -
  let ?g = "[(''progress'', JBool True)]"
  let ?o = "[(''force'', JBool False)]"
  let ?m = "[(''progress'', JBool True), (''force'', JBool False)]"
  let ?good = "EObject (Some [JStr ''b'', JStr ''a'', JStr ''c'']) (Some ?o)"
  let ?bad = "EObject (Some [JStr ''b'', JStr ''missing'', JStr ''c'']) (Some ?o)"
  note ev = skips_def cache_flag_def override_def field_def cold_def example_host_def
    merged_def Object_assign_def calls_def
  have p: "\<not> truthy (field ?g ''parallel'')" by (simp add: field_def)
  have m: "merged ?g ?good = ?m" "merged ?g ?bad = ?m" by (simp_all add: ev)
  have bar: "truthy (field ?g ''progress'') \<longrightarrow> this_progress example_plugin \<noteq> None"
    by (simp add: example_plugin_def)
  have pre1: "distinct (map fst ?g) \<and> distinct (map fst (entry_options ?good))
      \<and> \<not> skips example_host ?g ''copy'' ?good cold"
    by (simp add: ev)
  have pre2: "distinct (map fst ?g) \<and> distinct (map fst (entry_options ?bad))
      \<and> \<not> skips example_host ?g ''copy'' ?bad cold"
    by (simp add: ev)
  have r: "resolves_all example_host ''copy'' (merged ?g ?good) (entry_items ?good) (world cold)"
    by (simp add: m) (simp add: example_host_def cold_def)
  have rj: "entry_items ?bad = [JStr ''b''] @ JStr ''missing'' # [JStr ''c'']
      \<and> resolves_all example_host ''copy'' (merged ?g ?bad) [JStr ''b''] (world cold)
      \<and> commander example_host ''copy'' (JStr ''missing'') (merged ?g ?bad)
           (world_after example_host ''copy'' (merged ?g ?bad) [JStr ''b''] (world cold)) =
         (Some (JStr ''ENOENT''), [JStr ''b''])"
    by (simp add: m) (simp add: example_host_def cold_def)
  note t1 = sequential_in_order [OF p, where e = "?good" and h = example_host
      and command = "''copy''" and s = cold and this = example_plugin
      and its = "Some [JStr ''b'', JStr ''a'', JStr ''c'']" and opt = "Some ?o"]
  note t2 = sequential_in_order [OF p, where e = "?bad" and h = example_host
      and command = "''copy''" and s = cold and this = example_plugin
      and its = "Some [JStr ''b'', JStr ''missing'', JStr ''c'']" and opt = "Some ?o"]
  from t1 pre1 r bar have
    a1: "trace (state_of (handle_entry example_host ?g ''copy'' ?good cold)) =
           trace cold @ calls ''copy'' (merged ?g ?good) (entry_items ?good)"
    and a2: "world (state_of (handle_entry example_host ?g ''copy'' ?good cold)) =
           world_after example_host ''copy'' (merged ?g ?good) (entry_items ?good) (world cold)"
    and a3: "commander_calls (trace (state_of (plugin_handle_entry example_host example_plugin ?g
              ''copy'' ?good cold))) =
           commander_calls (trace cold) @ calls ''copy'' (merged ?g ?good) (entry_items ?good)"
    and a4: "world (state_of (plugin_handle_entry example_host example_plugin ?g ''copy'' ?good cold)) =
           world_after example_host ''copy'' (merged ?g ?good) (entry_items ?good) (world cold)"
    by blast+
  from t2 pre2 rj bar have
    b1: "handle_entry example_host ?g ''copy'' ?bad cold =
           Failed (Rejected (JStr ''ENOENT''))
             (cold\<lparr>trace := trace cold @ calls ''copy'' (merged ?g ?bad) ([JStr ''b''] @ [JStr ''missing'']),
                   world := [JStr ''b'']\<rparr>)"
    and b2: "commander_calls (trace (state_of (plugin_handle_entry example_host example_plugin ?g
              ''copy'' ?bad cold))) =
           commander_calls (trace cold) @
             calls ''copy'' (merged ?g ?bad) ([JStr ''b''] @ [JStr ''missing''])"
    and b3: "world (state_of (plugin_handle_entry example_host example_plugin ?g ''copy'' ?bad cold)) =
           [JStr ''b'']"
    by blast+
  from p a1 a2 a3 a4 b1 b2 b3 show ?thesis
    by (simp add: m) (simp add: ev commander_calls_def world_after_def)
qed

section \<open>Progress\<close>

lemma progress_calls_simps [simp]:
  "progress_calls [] = []"
  "progress_calls (Commander c i opts # evs) = progress_calls evs"
  "progress_calls (MasterCluster jobs cpu t opts # evs) = progress_calls evs"
  "progress_calls (SetSpeed n # evs) = SetSpeed n # progress_calls evs"
  "progress_calls (evs @ evs') = progress_calls evs @ progress_calls evs'"
  by (simp_all add: progress_calls_def)

lemma run_items_no_progress:
  "progress_calls (trace (state_of (run_items h command opts xs s))) = progress_calls (trace s)"
proof (induction xs arbitrary: s)
  case Nil
  show ?case by simp
next
  case (Cons x xs)
  obtain res w where c: "commander h command x opts (world s) = (res, w)"
    by (cases "commander h command x opts (world s)")
  show ?case
  proof (cases res)
    case None
    with c Cons.IH [of "log (Commander command x opts) w s"] show ?thesis by simp
  next
    case (Some reason)
    with c show ?thesis by simp
  qed
qed

lemma run_cluster_no_progress:
  "progress_calls (trace (state_of (run_cluster h command opts xs p s))) = progress_calls (trace s)"
  by (simp add: run_cluster_trace)

lemma handle_entry_no_progress:
  "progress_calls (trace (state_of (handle_entry h g command e s))) = progress_calls (trace s)"
proof (cases "skip_condition h g command e s")
  case True
  then show ?thesis by (simp add: handle_entry_unfold)
next
  case False
  let ?r = "if truthy (field g ''parallel'')
            then run_cluster h command (merged g e) (entry_items e) (field g ''parallel'') s
            else run_items h command (merged g e) (entry_items e) s"
  have r: "progress_calls (trace (state_of ?r)) = progress_calls (trace s)"
    by (simp add: run_items_no_progress run_cluster_no_progress)
  have "trace (state_of (handle_entry h g command e s)) = trace (state_of ?r)"
    using False by (cases ?r) (simp_all add: handle_entry_unfold)
  with r show ?thesis by simp
qed

lemma handle_commands_no_progress:
  "progress_calls (trace (state_of (handle_commands h g batch cmds s))) = progress_calls (trace s)"
proof (induction cmds arbitrary: s)
  case Nil
  show ?case by simp
next
  case (Cons c cmds)
  obtain command e where c: "c = (command, e)" by (cases c)
  show ?case
  proof (cases "hasOwnProperty (map fst batch) command")
    case (Inl err)
    with c show ?thesis by simp
  next
    case (Inr own)
    show ?thesis
    proof (cases "own \<and> command \<in> set COMMAND_LIST")
      case False
      with c Inr Cons.IH [of s] show ?thesis by auto
    next
      case True
      show ?thesis
      proof (cases "handle_entry h g command e s")
        case (Done s')
        with handle_entry_no_progress [of h g command e s]
        have "progress_calls (trace s') = progress_calls (trace s)" by simp
        with c Inr True Done Cons.IH [of s'] show ?thesis by simp
      next
        case (Failed err s')
        with handle_entry_no_progress [of h g command e s]
        have "progress_calls (trace s') = progress_calls (trace s)" by simp
        with c Inr True Failed show ?thesis by simp
      qed
    qed
  qed
qed

text \<open>
  Claim C6, as the code has it: the claim holds of the method of the plugin. With
  progress tracking on (the \<^verbatim>\<open>progress\<close> of the global options is truthy and the bar
  exists): in sequential mode every executor call that resolves is followed by
  \<^verbatim>\<open>setSpeed(1)\<close> and a call that rejects by none; in parallel mode the dispatcher
  call is followed by exactly one \<^verbatim>\<open>setSpeed\<close>, with the count the dispatcher resolved
  with, and by none when the dispatcher rejects. \<^verbatim>\<open>handleCommand\<close> in \<^verbatim>\<open>part_000\<close>
  makes no progress call.
\<close>

theorem progress_accounting:
  assumes "truthy (field g ''progress'')" and "this_progress this = Some bar"
  shows
   "(\<not> truthy (field g ''parallel'') \<longrightarrow>
       (resolves_all h command (merged g (EObject its opt)) (entry_items (EObject its opt)) (world s) \<longrightarrow>
          plugin_handle_entry h this g command (EObject its opt) s =
            Done (s\<lparr>trace := trace s @
                     concat (map (\<lambda>i. [Commander command i (merged g (EObject its opt)),
                                        SetSpeed (JNum 1)])
                               (entry_items (EObject its opt))),
                   world := world_after h command (merged g (EObject its opt))
                              (entry_items (EObject its opt)) (world s)\<rparr>))
     \<and> (\<forall>ys x zs reason w'.
            entry_items (EObject its opt) = ys @ x # zs
          \<and> resolves_all h command (merged g (EObject its opt)) ys (world s)
          \<and> commander h command x (merged g (EObject its opt))
               (world_after h command (merged g (EObject its opt)) ys (world s)) = (Some reason, w')
          \<longrightarrow> plugin_handle_entry h this g command (EObject its opt) s =
                Failed (Rejected reason)
                  (s\<lparr>trace := trace s @
                       concat (map (\<lambda>i. [Commander command i (merged g (EObject its opt)),
                                          SetSpeed (JNum 1)]) ys)
                       @ [Commander command x (merged g (EObject its opt))],
                     world := w'\<rparr>)))
  \<and> (truthy (field g ''parallel'') \<longrightarrow>
       (\<forall>n w. masterCluster h (entry_items (EObject its opt)) (field g ''parallel'') command
                 (merged g (EObject its opt)) (world s) = (Inr n, w) \<longrightarrow>
          plugin_handle_entry h this g command (EObject its opt) s =
            Done (s\<lparr>trace := trace s @
                     [MasterCluster (entry_items (EObject its opt)) (field g ''parallel'') command
                        (merged g (EObject its opt)), SetSpeed n],
                   world := w\<rparr>))
     \<and> (\<forall>reason w. masterCluster h (entry_items (EObject its opt)) (field g ''parallel'') command
                 (merged g (EObject its opt)) (world s) = (Inl reason, w) \<longrightarrow>
          plugin_handle_entry h this g command (EObject its opt) s =
            Failed (Rejected reason)
              (s\<lparr>trace := trace s @
                     [MasterCluster (entry_items (EObject its opt)) (field g ''parallel'') command
                        (merged g (EObject its opt))],
                   world := w\<rparr>)))
  \<and> progress_calls (trace (state_of (handle_commands h' g batch cmds s'))) =
      progress_calls (trace s')"
proof (intro conjI impI allI)
  let ?e = "EObject its opt"
  have bar: "truthy (field g ''progress'') \<longrightarrow> this_progress this \<noteq> None"
    using assms by simp
  have steps: "(\<lambda>i. Commander command i (merged g ?e) #
        (if truthy (field g ''progress'') then [SetSpeed (JNum 1)] else [])) =
      (\<lambda>i. [Commander command i (merged g ?e), SetSpeed (JNum 1)])"
    using assms by simp
  {
    assume p: "\<not> truthy (field g ''parallel'')"
      and r: "resolves_all h command (merged g ?e) (entry_items ?e) (world s)"
    from plugin_run_items_resolves [OF bar r] p
    show "plugin_handle_entry h this g command ?e s =
            Done (s\<lparr>trace := trace s @
                     concat (map (\<lambda>i. [Commander command i (merged g ?e), SetSpeed (JNum 1)])
                               (entry_items ?e)),
                   world := world_after h command (merged g ?e) (entry_items ?e) (world s)\<rparr>)"
      unfolding steps by (simp add: plugin_handle_entry_unfold)
  }
  {
    fix ys x zs reason w'
    assume p: "\<not> truthy (field g ''parallel'')"
      and "entry_items ?e = ys @ x # zs
          \<and> resolves_all h command (merged g ?e) ys (world s)
          \<and> commander h command x (merged g ?e)
               (world_after h command (merged g ?e) ys (world s)) = (Some reason, w')"
    then have i: "entry_items ?e = ys @ x # zs"
      and r: "resolves_all h command (merged g ?e) ys (world s)"
      and c: "commander h command x (merged g ?e)
               (world_after h command (merged g ?e) ys (world s)) = (Some reason, w')"
      by simp_all
    from plugin_run_items_rejects [OF bar r c, of zs] p i
    show "plugin_handle_entry h this g command ?e s =
                Failed (Rejected reason)
                  (s\<lparr>trace := trace s @
                       concat (map (\<lambda>i. [Commander command i (merged g ?e), SetSpeed (JNum 1)]) ys)
                       @ [Commander command x (merged g ?e)],
                     world := w'\<rparr>)"
      unfolding steps by (simp add: plugin_handle_entry_unfold)
  }
  {
    fix n w
    assume "truthy (field g ''parallel'')"
      and "masterCluster h (entry_items ?e) (field g ''parallel'') command
                 (merged g ?e) (world s) = (Inr n, w)"
    with assms show "plugin_handle_entry h this g command ?e s =
            Done (s\<lparr>trace := trace s @
                     [MasterCluster (entry_items ?e) (field g ''parallel'') command
                        (merged g ?e), SetSpeed n],
                   world := w\<rparr>)"
      by (simp add: plugin_handle_entry_unfold plugin_run_cluster_def setSpeed_def log_def)
  }
  {
    fix reason w
    assume "truthy (field g ''parallel'')"
      and "masterCluster h (entry_items ?e) (field g ''parallel'') command
                 (merged g ?e) (world s) = (Inl reason, w)"
    with assms show "plugin_handle_entry h this g command ?e s =
            Failed (Rejected reason)
              (s\<lparr>trace := trace s @
                     [MasterCluster (entry_items ?e) (field g ''parallel'') command
                        (merged g ?e)],
                   world := w\<rparr>)"
      by (simp add: plugin_handle_entry_unfold plugin_run_cluster_def setSpeed_def log_def)
  }
  show "progress_calls (trace (state_of (handle_commands h' g batch cmds s'))) =
      progress_calls (trace s')"
    by (rule handle_commands_no_progress)
qed

theorem progress_accounting_witness:
  "truthy (field [(''progress'', JBool True)] ''progress'')
   \<and> this_progress example_plugin = Some \<lparr>taskName = PROGRESS_TASK_NAME, start = 0, total = 2\<rparr>
   \<and> plugin_handle_entry example_host example_plugin [(''progress'', JBool True)] ''copy''
       (EObject (Some [JStr ''a'', JStr ''b'']) (Some [(''force'', JBool False)])) cold =
     Done \<lparr>cache = Map.empty,
           trace = [Commander ''copy'' (JStr ''a'') [(''progress'', JBool True), (''force'', JBool False)],
                    SetSpeed (JNum 1),
                    Commander ''copy'' (JStr ''b'') [(''progress'', JBool True), (''force'', JBool False)],
                    SetSpeed (JNum 1)],
           world = [JStr ''a'', JStr ''b'']\<rparr>
   \<and> plugin_handle_entry example_host example_plugin [(''progress'', JBool True)] ''copy''
       (EObject (Some [JStr ''a'', JStr ''missing'', JStr ''b'']) (Some [(''force'', JBool False)])) cold =
     Failed (Rejected (JStr ''ENOENT''))
       \<lparr>cache = Map.empty,
        trace = [Commander ''copy'' (JStr ''a'') [(''progress'', JBool True), (''force'', JBool False)],
                 SetSpeed (JNum 1),
                 Commander ''copy'' (JStr ''missing'')
                   [(''progress'', JBool True), (''force'', JBool False)]],
        world = [JStr ''a'']\<rparr>
   \<and> plugin_handle_entry example_host example_plugin
       [(''progress'', JBool True), (''parallel'', JNum 2)] ''copy''
       (EObject (Some [JStr ''a'', JStr ''b'', JStr ''c'']) None) cold =
     Done \<lparr>cache = Map.empty,
           trace = [MasterCluster [JStr ''a'', JStr ''b'', JStr ''c''] (JNum 2) ''copy''
                      [(''progress'', JBool True), (''parallel'', JNum 2)],
                    SetSpeed (JNum 3)],
           world = [JStr ''a'', JStr ''b'', JStr ''c'']\<rparr>
   \<and> plugin_handle_entry example_host example_plugin
       [(''progress'', JBool True), (''parallel'', JNum 2)] ''copy''
       (EObject (Some [JStr ''a'', JStr ''missing'']) None) cold =
     Failed (Rejected (JStr ''ENOENT''))
       \<lparr>cache = Map.empty,
        trace = [MasterCluster [JStr ''a'', JStr ''missing''] (JNum 2) ''copy''
                   [(''progress'', JBool True), (''parallel'', JNum 2)]],
        world = []\<rparr>
   \<and> progress_calls (trace (state_of (handle_commands example_host [(''progress'', JBool True)]
        [(''copy'', EObject (Some [JStr ''a'', JStr ''b'']) None)]
        [(''copy'', EObject (Some [JStr ''a'', JStr ''b'']) None)] cold))) = []"
proof -
  let ?g = "[(''progress'', JBool True)]"
  let ?g2 = "[(''progress'', JBool True), (''parallel'', JNum 2)]"
  let ?o = "[(''force'', JBool False)]"
  let ?m = "[(''progress'', JBool True), (''force'', JBool False)]"
  let ?ia = "Some [JStr ''a'', JStr ''b'']"
  let ?ib = "Some [JStr ''a'', JStr ''missing'', JStr ''b'']"
  let ?ic = "Some [JStr ''a'', JStr ''b'', JStr ''c'']"
  let ?id = "Some [JStr ''a'', JStr ''missing'']"
  let ?batch = "[(''copy'', EObject (Some [JStr ''a'', JStr ''b'']) None)]"
  note ev = field_def cold_def example_host_def merged_def Object_assign_def world_after_def
  have pr: "truthy (field ?g ''progress'')" "truthy (field ?g2 ''progress'')"
    by (simp_all add: field_def)
  have bar: "this_progress example_plugin = Some \<lparr>taskName = PROGRESS_TASK_NAME, start = 0, total = 2\<rparr>"
    by (simp add: example_plugin_def)
  have p: "\<not> truthy (field ?g ''parallel'')" "truthy (field ?g2 ''parallel'')"
    by (simp_all add: field_def)
  have m: "merged ?g (EObject ?ia (Some ?o)) = ?m" "merged ?g (EObject ?ib (Some ?o)) = ?m"
    "merged ?g2 (EObject ?ic None) = ?g2" "merged ?g2 (EObject ?id None) = ?g2"
    "field ?g2 ''parallel'' = JNum 2"
    by (simp_all add: ev)
  note t1 = progress_accounting [OF pr(1) bar, where h = example_host and command = "''copy''"
      and its = "?ia" and opt = "Some ?o" and s = cold and h' = example_host and batch = "?batch"
      and cmds = "?batch" and s' = cold]
  note t2 = progress_accounting [OF pr(1) bar, where h = example_host and command = "''copy''"
      and its = "?ib" and opt = "Some ?o" and s = cold and h' = example_host and batch = "[]"
      and cmds = "[]" and s' = cold]
  note t3 = progress_accounting [OF pr(2) bar, where h = example_host and command = "''copy''"
      and its = "?ic" and opt = None and s = cold and h' = example_host and batch = "[]"
      and cmds = "[]" and s' = cold]
  note t4 = progress_accounting [OF pr(2) bar, where h = example_host and command = "''copy''"
      and its = "?id" and opt = None and s = cold and h' = example_host and batch = "[]"
      and cmds = "[]" and s' = cold]
  have h1: "resolves_all example_host ''copy'' (merged ?g (EObject ?ia (Some ?o)))
      (entry_items (EObject ?ia (Some ?o))) (world cold)"
    by (simp add: m) (simp add: example_host_def cold_def)
  from t1 p(1) h1 have
    a: "plugin_handle_entry example_host example_plugin ?g ''copy'' (EObject ?ia (Some ?o)) cold =
          Done (cold\<lparr>trace := trace cold @
                  concat (map (\<lambda>i. [Commander ''copy'' i (merged ?g (EObject ?ia (Some ?o))),
                                     SetSpeed (JNum 1)])
                            (entry_items (EObject ?ia (Some ?o)))),
                world := world_after example_host ''copy'' (merged ?g (EObject ?ia (Some ?o)))
                           (entry_items (EObject ?ia (Some ?o))) (world cold)\<rparr>)"
    and n: "progress_calls (trace (state_of (handle_commands example_host ?g ?batch ?batch cold))) =
          progress_calls (trace cold)"
    by blast+
  have h2: "entry_items (EObject ?ib (Some ?o)) = [JStr ''a''] @ JStr ''missing'' # [JStr ''b'']
      \<and> resolves_all example_host ''copy'' (merged ?g (EObject ?ib (Some ?o))) [JStr ''a''] (world cold)
      \<and> commander example_host ''copy'' (JStr ''missing'') (merged ?g (EObject ?ib (Some ?o)))
           (world_after example_host ''copy'' (merged ?g (EObject ?ib (Some ?o))) [JStr ''a'']
              (world cold)) =
         (Some (JStr ''ENOENT''), [JStr ''a''])"
    by (simp add: m) (simp add: example_host_def cold_def)
  from t2 p(1) h2 have
    b: "plugin_handle_entry example_host example_plugin ?g ''copy'' (EObject ?ib (Some ?o)) cold =
          Failed (Rejected (JStr ''ENOENT''))
            (cold\<lparr>trace := trace cold @
                  concat (map (\<lambda>i. [Commander ''copy'' i (merged ?g (EObject ?ib (Some ?o))),
                                     SetSpeed (JNum 1)]) [JStr ''a''])
                  @ [Commander ''copy'' (JStr ''missing'') (merged ?g (EObject ?ib (Some ?o)))],
                world := [JStr ''a'']\<rparr>)"
    by blast
  have h3: "masterCluster example_host (entry_items (EObject ?ic None)) (field ?g2 ''parallel'')
      ''copy'' (merged ?g2 (EObject ?ic None)) (world cold) =
      (Inr (JNum 3), [JStr ''a'', JStr ''b'', JStr ''c''])"
    by (simp add: example_host_def cold_def)
  from t3 p(2) h3 have
    c: "plugin_handle_entry example_host example_plugin ?g2 ''copy'' (EObject ?ic None) cold =
          Done (cold\<lparr>trace := trace cold @
                  [MasterCluster (entry_items (EObject ?ic None)) (field ?g2 ''parallel'') ''copy''
                     (merged ?g2 (EObject ?ic None)), SetSpeed (JNum 3)],
                world := [JStr ''a'', JStr ''b'', JStr ''c'']\<rparr>)"
    by blast
  have h4: "masterCluster example_host (entry_items (EObject ?id None)) (field ?g2 ''parallel'')
      ''copy'' (merged ?g2 (EObject ?id None)) (world cold) = (Inl (JStr ''ENOENT''), [])"
    by (simp add: example_host_def cold_def)
  from t4 p(2) h4 have
    d: "plugin_handle_entry example_host example_plugin ?g2 ''copy'' (EObject ?id None) cold =
          Failed (Rejected (JStr ''ENOENT''))
            (cold\<lparr>trace := trace cold @
                  [MasterCluster (entry_items (EObject ?id None)) (field ?g2 ''parallel'') ''copy''
                     (merged ?g2 (EObject ?id None))],
                world := []\<rparr>)"
    by blast
  from pr(1) bar a b c d n show ?thesis
    by (simp add: m) (simp add: ev)
qed

text \<open>
  Claim C6 as stated fails for \<^verbatim>\<open>handleCommand\<close> in \<^verbatim>\<open>part_000\<close>: with
  \<^verbatim>\<open>progress: true\<close> among the global options two items are executed one after the
  other, three are dispatched, and the progress counter is never touched.
\<close>

theorem no_progress_in_part_000_counterexample:
  "truthy (field [(''progress'', JBool True)] ''progress'')
   \<and> handleCommand example_host (Some [(''copy'', EObject (Some [JStr ''a'', JStr ''b'']) None)])
       (Some [(''progress'', JBool True)]) cold =
     Done \<lparr>cache = [''copy'' \<mapsto> JSON_stringify [JStr ''a'', JStr ''b'']],
           trace = [Commander ''copy'' (JStr ''a'') [(''progress'', JBool True)],
                    Commander ''copy'' (JStr ''b'') [(''progress'', JBool True)]],
           world = [JStr ''a'', JStr ''b'']\<rparr>
   \<and> handleCommand example_host
       (Some [(''copy'', EObject (Some [JStr ''a'', JStr ''b'', JStr ''c'']) None)])
       (Some [(''progress'', JBool True), (''parallel'', JNum 2)]) cold =
     Done \<lparr>cache = [''copy'' \<mapsto> JSON_stringify [JStr ''a'', JStr ''b'', JStr ''c'']],
           trace = [MasterCluster [JStr ''a'', JStr ''b'', JStr ''c''] (JNum 2) ''copy''
                      [(''progress'', JBool True), (''parallel'', JNum 2)]],
           world = [JStr ''a'', JStr ''b'', JStr ''c'']\<rparr>"
  by (simp add: handleCommand_def eval_defs)

section \<open>Running a batch twice\<close>











section \<open>The progress total\<close>

lemma count_commands_eq:
  assumes k: "''hasOwnProperty'' \<notin> fst ` set batch"
  shows "fst ` set cmds \<subseteq> fst ` set batch \<Longrightarrow>
   count_commands batch cmds r =
     (if \<forall>(command, e) \<in> set (recognized cmds). is_object e
      then Inr (r + item_count (recognized cmds)) else Inl TypeError)"
proof (induction cmds arbitrary: r)
  case Nil
  show ?case by (simp add: recognized_def item_count_def)
next
  case (Cons p rest)
  obtain command e where p: "p = (command, e)" by (cases p)
  from Cons.prems p have own: "command \<in> set (map fst batch)"
    and sub: "fst ` set rest \<subseteq> fst ` set batch"
    by auto
  from k own have h: "hasOwnProperty (map fst batch) command = Inr True"
    by (simp add: hasOwnProperty_def)
  show ?case
  proof (cases "command \<in> set COMMAND_LIST")
    case False
    with Cons.IH [OF sub, of r] p h show ?thesis by (simp add: recognized_def)
  next
    case True
    show ?thesis
    proof (cases e)
      case EUndefined
      with True p h show ?thesis by (simp add: recognized_def)
    next
      case ENull
      with True p h show ?thesis by (simp add: recognized_def)
    next
      case (EObject its opt)
      show ?thesis
      proof (cases its)
        case None
        with EObject True Cons.IH [OF sub, of r] p h show ?thesis
          by (simp add: recognized_def item_count_def items_or_default_def)
      next
        case (Some xs)
        with EObject True Cons.IH [OF sub, of "r + length xs"] p h show ?thesis
          by (simp add: recognized_def item_count_def items_or_default_def)
      qed
    qed
  qed
qed

lemma count_hooks_eq:
  "plain_keys hookItems \<Longrightarrow>
   count_hooks hookItems r =
     (if \<forall>(command, e) \<in> set (eligible hookItems). is_object e
      then Inr (r + item_count (eligible hookItems)) else Inl TypeError)"
proof (induction hookItems arbitrary: r)
  case Nil
  show ?case by (simp add: eligible_def item_count_def)
next
  case (Cons hookItem rest)
  have el: "eligible (hookItem # rest) =
      (if supported (hookType hookItem) then recognized (hook_commands hookItem) else [])
      @ eligible rest"
    by (simp add: eligible_def)
  from Cons.prems have pk: "plain_keys rest"
    and k: "supported (hookType hookItem) \<longrightarrow>
            ''hasOwnProperty'' \<notin> fst ` set (hook_commands hookItem)"
    by (simp_all add: plain_keys_def)
  show ?case
  proof (cases "supported (hookType hookItem)")
    case False
    with Cons.IH [OF pk, of r] el show ?thesis by simp
  next
    case True
    let ?cs = "hook_commands hookItem"
    from k True have k': "''hasOwnProperty'' \<notin> fst ` set ?cs" by simp
    have cc: "count_commands ?cs ?cs r =
       (if \<forall>(command, e) \<in> set (recognized ?cs). is_object e
        then Inr (r + item_count (recognized ?cs)) else Inl TypeError)"
      by (rule count_commands_eq [OF k' subset_refl])
    have step: "count_hooks (hookItem # rest) r =
        (case count_commands ?cs ?cs r of Inl err \<Rightarrow> Inl err
         | Inr result' \<Rightarrow> count_hooks rest result')"
      using True by (simp add: hook_commands_def)
    show ?thesis
    proof (cases "\<forall>(command, e) \<in> set (recognized ?cs). is_object e")
      case False
      with True cc el step show ?thesis by auto
    next
      case ok: True
      with cc have c: "count_commands ?cs ?cs r = Inr (r + item_count (recognized ?cs))"
        by simp
      have "count_hooks (hookItem # rest) r =
          count_hooks rest (r + item_count (recognized ?cs))"
        using step c by simp
      also have "\<dots> = (if \<forall>(command, e) \<in> set (eligible rest). is_object e
          then Inr (r + item_count (recognized ?cs) + item_count (eligible rest))
          else Inl TypeError)"
        by (rule Cons.IH [OF pk])
      finally show ?thesis using ok el True
        by (auto simp: item_count_def)
    qed
  qed
qed

text \<open>
  Where no batch has an own key \<^verbatim>\<open>hasOwnProperty\<close> and every entry of a recognized
  command is an object, the total of \<^verbatim>\<open>countTotalTasks\<close> is the number of items of the
  recognized commands under the hook items whose hook type passes the test.
\<close>

lemma countTotalTasks_sum:
  assumes "plain_keys hookItems"
    and "\<forall>(command, e) \<in> set (eligible hookItems). is_object e"
  shows "countTotalTasks hookItems = Inr (item_count (eligible hookItems))"
  using count_hooks_eq [OF assms(1), of 0] assms(2) by (simp add: countTotalTasks_def)

text \<open>The definitions to unfold when the hooks of a concrete plugin are evaluated.\<close>

lemmas hook_defs = translateHooks_def copy_at_end_def null_copy_at_end_def constructor_def
  BUILTIN_EVENT_NAMES_def BUILTIN_EVENTS_MAP_def NAMESPACE_REGISTER_NAME_def supported_def
  hookTypes_def OBJECT_PROTOTYPE_def globalOptions_of_def PROGRESS_TASK_NAME_def
  countTotalTasks_def plugin_apply_def name_hook_def


text \<open>
  A hook type that is a name inherited from \<^verbatim>\<open>Object.prototype\<close> passes the test of
  \<^verbatim>\<open>countTotalTasks\<close>: the items under it are counted.
\<close>

lemma inherited_hook_type_counted:
  "countTotalTasks
     [\<lparr>hookType = Some ''constructor'', hookName = Some ''done'', registerName = None,
       commands = Some [(''copy'', EObject (Some [JStr ''a'', JStr ''b'']) None)]\<rparr>] = Inr 2"
  by (simp add: hook_defs eval_defs)

section \<open>Unknown commands\<close>

text \<open>
  In a batch without an own key \<^verbatim>\<open>hasOwnProperty\<close>, an entry whose key is not one of
  the six command names is passed over by both loops, whatever its value and whatever the
  state.
\<close>

lemma unknown_command_passed_over:
  assumes "command \<notin> set COMMAND_LIST" and "''hasOwnProperty'' \<notin> fst ` set batch"
  shows "handle_commands h g batch ((command, e) # rest) s = handle_commands h g batch rest s"
    and "plugin_handle_commands h this g batch ((command, e) # rest) s =
         plugin_handle_commands h this g batch rest s"
  using assms by (simp_all add: hasOwnProperty_def)

text \<open>
  Claim C8 fails on the code at a batch with the unrecognized key \<^verbatim>\<open>hasOwnProperty\<close>:
  the test \<^verbatim>\<open>commands.hasOwnProperty(command)\<close> then calls the entry under that key,
  and both functions reject with a \<^verbatim>\<open>TypeError\<close> on the first key, before any command
  runs. With the unrecognized key \<^verbatim>\<open>chmod\<close> in its place the entry is passed over and
  \<^verbatim>\<open>copy\<close> runs.
\<close>

theorem shadowed_hasOwnProperty_throws:
  "''hasOwnProperty'' \<notin> set COMMAND_LIST
   \<and> handleCommand example_host
       (Some [(''hasOwnProperty'', EObject (Some [JStr ''x'']) None),
              (''copy'', EObject (Some [JStr ''a'']) None)])
       (Some []) cold =
     Failed TypeError cold
   \<and> plugin_handleCommand example_host example_plugin
       (Some [(''hasOwnProperty'', EObject (Some [JStr ''x'']) None),
              (''copy'', EObject (Some [JStr ''a'']) None)]) cold =
     Failed TypeError cold
   \<and> handleCommand example_host
       (Some [(''chmod'', EObject (Some [JStr ''x'']) None),
              (''copy'', EObject (Some [JStr ''a'']) None)])
       (Some []) cold =
     Done \<lparr>cache = [''copy'' \<mapsto> JSON_stringify [JStr ''a'']],
           trace = [Commander ''copy'' (JStr ''a'') []],
           world = [JStr ''a'']\<rparr>
   \<and> plugin_handleCommand example_host example_plugin
       (Some [(''chmod'', EObject (Some [JStr ''x'']) None),
              (''copy'', EObject (Some [JStr ''a'']) None)]) cold =
     Done \<lparr>cache = Map.empty,
           trace = [Commander ''copy'' (JStr ''a'') [(''progress'', JBool True)], SetSpeed (JNum 1)],
           world = [JStr ''a'']\<rparr>"
  by (simp add: handleCommand_def plugin_handleCommand_def globalOptions_of_def example_plugin_def
      eval_defs)

section \<open>The constructor\<close>

text \<open>
  Claim C9. For every argument that is not an object (\<^verbatim>\<open>undefined\<close>, \<^verbatim>\<open>null\<close>, a
  boolean, a number, a string, an array, a function) the constructor returns the instance
  it returns for the empty object: \<^verbatim>\<open>this.options\<close> is \<^verbatim>\<open>{}\<close>, the global options
  are empty, \<^verbatim>\<open>translateHooks\<close> returns no hook item, \<^verbatim>\<open>countTotalTasks\<close> returns 0
  and \<^verbatim>\<open>apply\<close> creates no progress bar and registers nothing.
\<close>

theorem constructor_defaults:
  assumes "\<not> is_plain_object opts"
  shows "constructor opts = constructor (ArgObj empty_options)
       \<and> this_options (constructor opts) = empty_options
       \<and> this_progress (constructor opts) = None
       \<and> globalOptions_of (constructor opts) = []
       \<and> translateHooks (constructor opts) = Inr (constructor opts, [])
       \<and> (case translateHooks (constructor opts) of
            Inl err \<Rightarrow> Inl err
          | Inr (this', hookItems) \<Rightarrow> countTotalTasks hookItems) = Inr 0
       \<and> plugin_apply (constructor opts) compiler = Inr (constructor opts, [])"
proof -
  have o: "this_options (constructor opts) = empty_options"
    using assms by (cases opts) (simp_all add: constructor_def)
  have c: "constructor opts = constructor (ArgObj empty_options)"
    using assms by (cases opts) (simp_all add: constructor_def)
  have g: "globalOptions_of (constructor opts) = []"
    using o by (simp add: globalOptions_of_def empty_options_def options_or_default_def)
  have t: "translateHooks (constructor opts) = Inr (constructor opts, [])"
    using o by (simp add: translateHooks_def empty_options_def)
  have n: "(case translateHooks (constructor opts) of
            Inl err \<Rightarrow> Inl err
          | Inr (this', hookItems) \<Rightarrow> countTotalTasks hookItems) = Inr 0"
    using t by (simp add: countTotalTasks_def)
  have a: "plugin_apply (constructor opts) compiler = Inr (constructor opts, [])"
    using t g by (simp add: plugin_apply_def field_def countTotalTasks_def)
  from o c g t n a show ?thesis
    by (simp add: constructor_def)
qed

theorem constructor_defaults_witness:
  "\<not> is_plain_object ArgUndefined \<and> \<not> is_plain_object ArgNull
   \<and> \<not> is_plain_object (ArgStr ''options'') \<and> \<not> is_plain_object (ArgArr [JStr ''a''])
   \<and> \<not> is_plain_object (ArgFun 0)
   \<and> this_options (constructor ArgUndefined) = empty_options
   \<and> this_options (constructor ArgNull) = empty_options
   \<and> this_options (constructor (ArgStr ''options'')) = empty_options
   \<and> this_options (constructor (ArgArr [JStr ''a''])) = empty_options
   \<and> this_options (constructor (ArgFun 0)) = empty_options
   \<and> plugin_apply (constructor (ArgStr ''options'')) (\<lambda>hookItem. True) =
       Inr (constructor (ArgStr ''options''), [])"
proof -
  have h: "\<not> is_plain_object ArgUndefined" "\<not> is_plain_object ArgNull"
    "\<not> is_plain_object (ArgStr ''options'')" "\<not> is_plain_object (ArgArr [JStr ''a''])"
    "\<not> is_plain_object (ArgFun 0)"
    by simp_all
  note a = constructor_defaults [OF h(1), of "\<lambda>hookItem. True"]
  note b = constructor_defaults [OF h(2), of "\<lambda>hookItem. True"]
  note c = constructor_defaults [OF h(3), of "\<lambda>hookItem. True"]
  note d = constructor_defaults [OF h(4), of "\<lambda>hookItem. True"]
  note e = constructor_defaults [OF h(5), of "\<lambda>hookItem. True"]
  from h a b c d e show ?thesis by blast
qed

section \<open>Missing entries\<close>

text \<open>
  Claim C10, as the code has it. In the orchestrator with the cache, an entry that is
  \<^verbatim>\<open>undefined\<close>, \<^verbatim>\<open>null\<close> or an object without \<^verbatim>\<open>items\<close> has the empty item
  list: the command is skipped, with no call, no cache write and no error, as it is for
  \<^verbatim>\<open>{ items: [], options: {} }\<close>. An object without \<^verbatim>\<open>options\<close> is handled as the
  same object with \<^verbatim>\<open>options: {}\<close>; whether it is skipped depends on its items.
\<close>

theorem missing_items_skipped:
  "(e = EUndefined \<or> e = ENull \<or> e = EObject None opt \<longrightarrow>
       entry_items e = []
     \<and> handle_entry h g command e s = Done s
     \<and> handle_entry h g command e s = handle_entry h g command (EObject (Some []) (Some [])) s
     \<and> (command \<in> set COMMAND_LIST \<longrightarrow>
          handle_commands h g batch ((command, e) # rest) s =
            (case hasOwnProperty (map fst batch) command of
               Inl err \<Rightarrow> Failed err s
             | Inr own \<Rightarrow> handle_commands h g batch rest s)))
   \<and> (e = EUndefined \<or> e = ENull \<longrightarrow> merged g e = merged g (EObject (Some []) (Some [])))
   \<and> merged g (EObject its None) = merged g (EObject its (Some []))
   \<and> handle_entry h g command (EObject its None) s =
       handle_entry h g command (EObject its (Some [])) s"
proof -
  have skip: "handle_entry h g command e s = Done s" if "entry_items e = []" for e
    using that by (simp add: handle_entry_unfold skip_condition_def)
  have items: "entry_items e = []" if "e = EUndefined \<or> e = ENull \<or> e = EObject None opt"
    using that by auto
  have same: "handle_entry h g command (EObject its None) s =
       handle_entry h g command (EObject its (Some [])) s"
    by (simp add: handle_entry_def options_or_default_def)
  have "entry_items (EObject (Some []) (Some [])) = []"
    by simp
  from skip [OF this] skip items same show ?thesis
    by (auto simp: merged_def split: sum.splits)
qed

theorem missing_items_skipped_witness:
  "handle_entry example_host [] ''copy'' ENull cold = Done cold
   \<and> handle_entry example_host [] ''copy'' EUndefined cold = Done cold
   \<and> handle_entry example_host [] ''copy'' (EObject None (Some [(''cache'', JBool False)])) cold =
       Done cold
   \<and> ''copy'' \<in> set COMMAND_LIST
   \<and> handle_commands example_host [] [(''copy'', ENull)] [(''copy'', ENull)] cold = Done cold"
proof -
  have r: "''copy'' \<in> set COMMAND_LIST" by (simp add: COMMAND_LIST_def)
  have k: "hasOwnProperty (map fst [(''copy'', ENull)]) ''copy'' = Inr True"
    by (simp add: hasOwnProperty_def)
  note a = missing_items_skipped [of ENull None example_host "[]" "''copy''" cold
      "[(''copy'', ENull)]" "[]" None]
  note b = missing_items_skipped [of EUndefined None example_host "[]" "''copy''" cold "[]" "[]" None]
  note c = missing_items_skipped [of "EObject None (Some [(''cache'', JBool False)])"
      "Some [(''cache'', JBool False)]" example_host "[]" "''copy''" cold "[]" "[]" None]
  from a r k have
    "handle_commands example_host [] [(''copy'', ENull)] [(''copy'', ENull)] cold =
     handle_commands example_host [] [(''copy'', ENull)] [] cold"
    by simp
  with a b c r show ?thesis by simp
qed

text \<open>
  Claim C10 as stated fails for an object that has items and lacks \<^verbatim>\<open>options\<close>: it is
  not skipped, the executor runs on its item and the cache is written.
\<close>

theorem missing_options_counterexample:
  "options_of (EObject (Some [JStr ''a'']) None) = None
   \<and> handle_entry example_host [] ''copy'' (EObject (Some [JStr ''a'']) None) cold =
       Done \<lparr>cache = [''copy'' \<mapsto> JSON_stringify [JStr ''a'']],
             trace = [Commander ''copy'' (JStr ''a'') []],
             world = [JStr ''a'']\<rparr>"
  by (simp add: eval_defs)

end
